theory Spec2Isabelle
  imports Main "HOL-Library.AList" "HOL-Library.Char_ord" "HOL-Library.List_Lexorder"
begin

section \<open>Python values used by the client and the scripts\<close>

text \<open>
  Exceptions are values. \<open>RequestException\<close> stands for
  \<^verbatim>\<open>requests.exceptions.RequestException\<close> and all its subclasses (connection errors,
  timeouts, \<^verbatim>\<open>HTTPError\<close>); the string is \<^verbatim>\<open>str(e)\<close>.
\<close>

datatype exn =
    RequestException string
  | ValueError string
  | IndexError
  | KeyError string
  | AttributeError
  | TypeError

text \<open>
  Decoded JSON, as \<^verbatim>\<open>response.json()\<close> and \<^verbatim>\<open>json.load\<close> return it. A float is
  kept as the text Python prints for it: the code only ever formats floats. A dict is
  an association list in insertion order.
\<close>

datatype json =
    JNull
  | JBool bool
  | JInt int
  | JFloat string
  | JStr string
  | JArr "json list"
  | JObj "(string \<times> json) list"

text \<open>Python truthiness, as \<^verbatim>\<open>if x:\<close> and \<^verbatim>\<open>not x\<close> test it.\<close>

fun truthy :: "json \<Rightarrow> bool" where
  "truthy JNull = False"
| "truthy (JBool b) = b"
| "truthy (JInt i) = (i \<noteq> 0)"
| "truthy (JFloat t) = (t \<noteq> ''0.0'' \<and> t \<noteq> ''-0.0'')"
| "truthy (JStr s) = (s \<noteq> [])"
| "truthy (JArr xs) = (xs \<noteq> [])"
| "truthy (JObj kvs) = (kvs \<noteq> [])"

text \<open>\<^verbatim>\<open>d.get(key, default)\<close>; on a value that is not a dict the attribute is missing.\<close>

fun py_get :: "json \<Rightarrow> string \<Rightarrow> json \<Rightarrow> exn + json" where
  "py_get (JObj kvs) k dflt = Inr (case map_of kvs k of None \<Rightarrow> dflt | Some v \<Rightarrow> v)"
| "py_get _ k dflt = Inl AttributeError"

text \<open>\<^verbatim>\<open>s.startswith(p)\<close>.\<close>

definition startswith :: "string \<Rightarrow> string \<Rightarrow> bool" where
  "startswith s p = (take (length p) s = p)"

text \<open>\<^verbatim>\<open>key in d\<close>: a key of a dict, an element of a list, a substring of a string.\<close>

fun py_contains :: "json \<Rightarrow> string \<Rightarrow> exn + bool" where
  "py_contains (JObj kvs) k = Inr (k \<in> fst ` set kvs)"
| "py_contains (JStr s) k = Inr (list_ex (\<lambda>i. startswith (drop i s) k) [0..<Suc (length s)])"
| "py_contains (JArr xs) k = Inr (JStr k \<in> set xs)"
| "py_contains _ k = Inl TypeError"

subsection \<open>Decimal text of integers: \<^verbatim>\<open>str(n)\<close> and \<^verbatim>\<open>f"{n}"\<close>\<close>

definition digit_char :: "nat \<Rightarrow> char" where
  "digit_char d = ''0123456789'' ! d"

fun str_nat :: "nat \<Rightarrow> string" where
  "str_nat n = (if n < 10 then [digit_char n] else str_nat (n div 10) @ [digit_char (n mod 10)])"

declare str_nat.simps [simp del]

definition py_str :: "int \<Rightarrow> string" where
  "py_str i = (if i < 0 then CHR ''-'' # str_nat (nat (- i)) else str_nat (nat i))"

text \<open>Reading a decimal numeral back, to say which number a count text denotes.\<close>

definition is_digit :: "char \<Rightarrow> bool" where
  "is_digit c = (c \<in> set ''0123456789'')"

definition digit_val :: "char \<Rightarrow> nat" where
  "digit_val c = of_char c - 48"

definition read_nat :: "string \<Rightarrow> nat" where
  "read_nat s = foldl (\<lambda>acc c. 10 * acc + digit_val c) 0 s"

subsection \<open>String methods\<close>

text \<open>
  The characters for which \<^verbatim>\<open>str.isspace\<close> holds, among the code points below 256 that a
  \<^typ>\<open>char\<close> ranges over: the ASCII ones, U+0085 and U+00A0.
\<close>

definition is_space :: "char \<Rightarrow> bool" where
  "is_space c = (c \<in> set [CHR '' '', CHR 0x09, CHR 0x0A, CHR 0x0B, CHR 0x0C, CHR 0x0D,
                            CHR 0x1C, CHR 0x1D, CHR 0x1E, CHR 0x1F, CHR 0x85, CHR 0xA0])"

text \<open>
  \<^verbatim>\<open>s.split(sep)\<close>: the pieces between the non-overlapping occurrences of \<open>sep\<close>,
  found from the left. \<open>cur\<close> is the piece being read. An empty separator raises.
\<close>

fun split_from :: "string \<Rightarrow> string \<Rightarrow> string \<Rightarrow> string list" where
  "split_from sep cur [] = [cur]"
| "split_from sep cur (c # cs) =
     (if sep \<noteq> [] \<and> startswith (c # cs) sep
      then cur # split_from sep [] (drop (length sep) (c # cs))
      else split_from sep (cur @ [c]) cs)"

definition py_split :: "string \<Rightarrow> string \<Rightarrow> exn + string list" where
  "py_split s sep =
     (if sep = [] then Inl (ValueError ''empty separator'') else Inr (split_from sep [] s))"

text \<open>\<^verbatim>\<open>s.split()\<close>: the maximal runs of characters that are not whitespace.\<close>

fun split_ws_from :: "string \<Rightarrow> string \<Rightarrow> string list" where
  "split_ws_from cur [] = (if cur = [] then [] else [cur])"
| "split_ws_from cur (c # cs) =
     (if is_space c then (if cur = [] then split_ws_from [] cs else cur # split_ws_from [] cs)
      else split_ws_from (cur @ [c]) cs)"

definition py_split_ws :: "string \<Rightarrow> string list" where
  "py_split_ws s = split_ws_from [] s"

text \<open>\<^verbatim>\<open>xs[i]\<close> for a non-negative literal index.\<close>

definition py_index :: "'a list \<Rightarrow> nat \<Rightarrow> exn + 'a" where
  "py_index xs i = (if i < length xs then Inr (xs ! i) else Inl IndexError)"

text \<open>\<^verbatim>\<open>s.replace(old, new)\<close> for a one-character \<open>old\<close>.\<close>

definition replace_char :: "char \<Rightarrow> string \<Rightarrow> string \<Rightarrow> string" where
  "replace_char old new s = concat (map (\<lambda>c. if c = old then new else [c]) s)"

text \<open>\<^verbatim>\<open>s.rstrip(c)\<close> for a one-character argument.\<close>

definition rstrip_char :: "char \<Rightarrow> string \<Rightarrow> string" where
  "rstrip_char c s = rev (dropWhile (\<lambda>x. x = c) (rev s))"

definition dquote :: char where
  "dquote = CHR 0x22"

definition backslash :: char where
  "backslash = CHR 0x5C"

section \<open>\<^verbatim>\<open>scripts/query_movielens.py\<close>: the count shown for a query\<close>

text \<open>
  \<^verbatim>\<open>info.split('#:')[1].split()[0]\<close>, the expression \<^verbatim>\<open>main\<close> applies to the result
  summary.
\<close>

definition extract_count :: "string \<Rightarrow> exn + string" where
  "extract_count info =
     (case py_split info ''#:'' of
        Inl e \<Rightarrow> Inl e
      | Inr pieces \<Rightarrow>
          (case py_index pieces 1 of
             Inl e \<Rightarrow> Inl e
           | Inr piece \<Rightarrow> py_index (py_split_ws piece) 0))"

text \<open>
  The whole conditional expression:
  \<^verbatim>\<open>result.get('resultInfo', '').split('#:')[1].split()[0] if 'resultInfo' in result else 'N/A'\<close>.
\<close>

definition count_text :: "json \<Rightarrow> exn + string" where
  "count_text result =
     (case py_contains result ''resultInfo'' of
        Inl e \<Rightarrow> Inl e
      | Inr False \<Rightarrow> Inr ''N/A''
      | Inr True \<Rightarrow>
          (case py_get result ''resultInfo'' (JStr []) of
             Inl e \<Rightarrow> Inl e
           | Inr (JStr info) \<Rightarrow> extract_count info
           | Inr _ \<Rightarrow> Inl AttributeError))"

text \<open>
  Modelled from the spec: the engine that formats the result summary is not among the
  sources; its external interface gives the text as
  \<^verbatim>\<open>query result #: <n> etime[<ms>] #ofRules: <k>\<close>.
\<close>

definition result_info :: "nat \<Rightarrow> nat \<Rightarrow> nat \<Rightarrow> string" where
  "result_info n ms k =
     ''query result #: '' @ str_nat n @ '' etime['' @ str_nat ms @ ''] #ofRules: '' @ str_nat k"

section \<open>\<^verbatim>\<open>python-client/pgview_client.py\<close>: the REST client\<close>

subsection \<open>The \<^verbatim>\<open>requests\<close> session\<close>

text \<open>
  What the client reads of a \<^verbatim>\<open>requests.Response\<close>: the status line, the URL, and what
  \<^verbatim>\<open>response.json()\<close> does (the decoded body, or the exception it raises).
\<close>

record response =
  status_code :: nat
  reason :: string
  url :: string
  json_result :: "exn + json"

text \<open>
  The session is the environment of the client. Each call either raises or returns a
  response, and moves the world (server and network, of type \<open>'w\<close>) to a new state.
  The arguments are the URL, the JSON body (\<^verbatim>\<open>post\<close> only) and the timeout.
\<close>

record 'w session =
  session_get :: "string \<Rightarrow> int \<Rightarrow> 'w \<Rightarrow> (exn + response) \<times> 'w"
  session_post :: "string \<Rightarrow> json option \<Rightarrow> int \<Rightarrow> 'w \<Rightarrow> (exn + response) \<times> 'w"
  session_delete :: "string \<Rightarrow> int \<Rightarrow> 'w \<Rightarrow> (exn + response) \<times> 'w"

text \<open>
  \<^verbatim>\<open>Response.raise_for_status\<close> of the \<^verbatim>\<open>requests\<close> library: an \<^verbatim>\<open>HTTPError\<close> (a
  \<^verbatim>\<open>RequestException\<close>) for a status from 400 to 599, nothing otherwise.
\<close>

definition http_error_msg :: "response \<Rightarrow> string" where
  "http_error_msg r =
     str_nat (status_code r)
       @ (if status_code r < 500 then '' Client Error: '' else '' Server Error: '')
       @ reason r @ '' for url: '' @ url r"

definition raise_for_status :: "response \<Rightarrow> exn + unit" where
  "raise_for_status r =
     (if 400 \<le> status_code r \<and> status_code r < 600
      then Inl (RequestException (http_error_msg r)) else Inr ())"

subsection \<open>\<^verbatim>\<open>PGViewClient\<close>\<close>

record 'w PGViewClient =
  base_url :: string
  timeout :: int
  session :: "'w session"

text \<open>\<^verbatim>\<open>__init__\<close>: trailing slashes of the base URL are dropped.\<close>

definition PGViewClient_init :: "string \<Rightarrow> int \<Rightarrow> 'w session \<Rightarrow> 'w PGViewClient" where
  "PGViewClient_init url0 t sess =
     \<lparr>base_url = rstrip_char CHR ''/'' url0, timeout = t, session = sess\<rparr>"

text \<open>
  The body of the \<^verbatim>\<open>try\<close> block of \<^verbatim>\<open>_request\<close> after the call of the session:
  \<^verbatim>\<open>response.raise_for_status()\<close>, then \<^verbatim>\<open>return response.json()\<close>.
\<close>

definition response_body :: "exn + response \<Rightarrow> exn + json" where
  "response_body sent =
     (case sent of
        Inl e \<Rightarrow> Inl e
      | Inr r \<Rightarrow> (case raise_for_status r of Inl e \<Rightarrow> Inl e | Inr _ \<Rightarrow> json_result r))"

text \<open>
  \<^verbatim>\<open>except requests.exceptions.RequestException as e\<close>: only this kind of exception
  is caught and turned into a dict; any other one propagates.
\<close>

definition error_dict :: "string \<Rightarrow> json" where
  "error_dict msg = JObj [(''success'', JBool False), (''error'', JStr msg)]"

fun catch_request_exception :: "exn + json \<Rightarrow> exn + json" where
  "catch_request_exception (Inl (RequestException msg)) = Inr (error_dict msg)"
| "catch_request_exception r = r"

text \<open>
  The \<^verbatim>\<open>if\<close>/\<^verbatim>\<open>elif\<close> chain of \<^verbatim>\<open>_request\<close> that picks the call of the session. The
  \<^verbatim>\<open>ValueError\<close> for an unsupported method is raised inside the \<^verbatim>\<open>try\<close> block, is
  not a \<^verbatim>\<open>RequestException\<close>, and so propagates.
\<close>

definition session_call ::
  "'w PGViewClient \<Rightarrow> string \<Rightarrow> string \<Rightarrow> json option \<Rightarrow> 'w \<Rightarrow> (exn + response) \<times> 'w" where
  "session_call self method target data w =
     (if method = ''GET'' then session_get (session self) target (timeout self) w
      else if method = ''POST'' then session_post (session self) target data (timeout self) w
      else if method = ''DELETE'' then session_delete (session self) target (timeout self) w
      else (Inl (ValueError (''Unsupported HTTP method: '' @ method)), w))"

text \<open>\<^verbatim>\<open>_request(method, endpoint, data)\<close>.\<close>

definition request ::
  "'w PGViewClient \<Rightarrow> string \<Rightarrow> string \<Rightarrow> json option \<Rightarrow> 'w \<Rightarrow> (exn + json) \<times> 'w" where
  "request self method endpoint data w =
     (case session_call self method (base_url self @ endpoint) data w of
        (sent, w') \<Rightarrow> (catch_request_exception (response_body sent), w'))"

subsection \<open>The public methods\<close>


definition connect :: "'w PGViewClient \<Rightarrow> string \<Rightarrow> 'w \<Rightarrow> (exn + json) \<times> 'w" where
  "connect self platform =
     request self ''POST'' ''/connect'' (Some (JObj [(''platform'', JStr platform)]))"

definition create_graph :: "'w PGViewClient \<Rightarrow> string \<Rightarrow> 'w \<Rightarrow> (exn + json) \<times> 'w" where
  "create_graph self name =
     request self ''POST'' ''/graph/create'' (Some (JObj [(''name'', JStr name)]))"

definition use_graph :: "'w PGViewClient \<Rightarrow> string \<Rightarrow> 'w \<Rightarrow> (exn + json) \<times> 'w" where
  "use_graph self name =
     request self ''POST'' ''/graph/use'' (Some (JObj [(''name'', JStr name)]))"






text \<open>
  The four insert methods. Each formats its arguments with an f-string: integers as
  decimal text, strings between double quotes, nothing escaped.
\<close>

definition insert_node :: "'w PGViewClient \<Rightarrow> int \<Rightarrow> string \<Rightarrow> 'w \<Rightarrow> (exn + json) \<times> 'w" where
  \<open>insert_node self node_id label =
     request self ''POST'' ''/data/insert''
       (Some (JObj [(''relName'', JStr ''N''),
                    (''args'', JStr (py_str node_id @ '',"'' @ label @ ''"''))]))\<close>

definition insert_edge ::
  "'w PGViewClient \<Rightarrow> int \<Rightarrow> int \<Rightarrow> int \<Rightarrow> string \<Rightarrow> 'w \<Rightarrow> (exn + json) \<times> 'w" where
  \<open>insert_edge self edge_id from_id to_id label =
     request self ''POST'' ''/data/insert''
       (Some (JObj [(''relName'', JStr ''E''),
                    (''args'', JStr (py_str edge_id @ '','' @ py_str from_id @ '','' @ py_str to_id
                                      @ '',"'' @ label @ ''"''))]))\<close>

definition insert_node_property ::
  "'w PGViewClient \<Rightarrow> int \<Rightarrow> string \<Rightarrow> string \<Rightarrow> 'w \<Rightarrow> (exn + json) \<times> 'w" where
  \<open>insert_node_property self node_id prop_name prop_value =
     request self ''POST'' ''/data/insert''
       (Some (JObj [(''relName'', JStr ''NP''),
                    (''args'', JStr (py_str node_id @ '',"'' @ prop_name @ ''","'' @ prop_value
                                      @ ''"''))]))\<close>

definition insert_edge_property ::
  "'w PGViewClient \<Rightarrow> int \<Rightarrow> string \<Rightarrow> string \<Rightarrow> 'w \<Rightarrow> (exn + json) \<times> 'w" where
  \<open>insert_edge_property self edge_id prop_name prop_value =
     request self ''POST'' ''/data/insert''
       (Some (JObj [(''relName'', JStr ''EP''),
                    (''args'', JStr (py_str edge_id @ '',"'' @ prop_name @ ''","'' @ prop_value
                                      @ ''"''))]))\<close>




definition query :: "'w PGViewClient \<Rightarrow> string \<Rightarrow> 'w \<Rightarrow> (exn + json) \<times> 'w" where
  "query self q = request self ''POST'' ''/query'' (Some (JObj [(''query'', JStr q)]))"




subsection \<open>Convenience methods\<close>

text \<open>
  \<^verbatim>\<open>setup_graph(graph_name, platform)\<close>: connect, create the graph, use it. The value
  returned is \<^verbatim>\<open>False\<close> or whatever the \<^verbatim>\<open>success\<close> field of the last response holds.
  The three calls run in this order on the world, so the response of a later call may
  depend on the earlier ones.
\<close>

definition setup_graph ::
  "'w PGViewClient \<Rightarrow> string \<Rightarrow> string \<Rightarrow> 'w \<Rightarrow> (exn + json) \<times> 'w" where
  "setup_graph self graph_name platform w =
     (case connect self platform w of
        (Inl e, w1) \<Rightarrow> (Inl e, w1)
      | (Inr result, w1) \<Rightarrow>
          (case py_get result ''success'' JNull of
             Inl e \<Rightarrow> (Inl e, w1)
           | Inr ok \<Rightarrow>
               if \<not> truthy ok then (Inr (JBool False), w1)
               else
                 (case create_graph self graph_name w1 of
                    (Inl e, w2) \<Rightarrow> (Inl e, w2)
                  | (Inr _, w2) \<Rightarrow>
                      (case use_graph self graph_name w2 of
                         (Inl e, w3) \<Rightarrow> (Inl e, w3)
                       | (Inr result', w3) \<Rightarrow>
                           (py_get result' ''success'' (JBool False), w3)))))"



section \<open>The interface of the engine, as the specification gives it\<close>

subsection \<open>\<^verbatim>\<open>insertFact(relation, args)\<close>\<close>

text \<open>
  The four fact relations and their signatures: \<^verbatim>\<open>N(id, label)\<close>,
  \<^verbatim>\<open>E(id, from, to, label)\<close>, \<^verbatim>\<open>NP(id, key, value)\<close>, \<^verbatim>\<open>EP(id, key, value)\<close>. Ids are
  integers, everything else is a string.
\<close>

datatype relation = Rel_N | Rel_E | Rel_NP | Rel_EP

datatype fact_value = IdValue int | TextValue string

datatype value_kind = IdKind | TextKind

fun relation_name :: "relation \<Rightarrow> string" where
  "relation_name Rel_N = ''N''"
| "relation_name Rel_E = ''E''"
| "relation_name Rel_NP = ''NP''"
| "relation_name Rel_EP = ''EP''"

fun signature_of :: "relation \<Rightarrow> (string \<times> value_kind) list" where
  "signature_of Rel_N = [(''id'', IdKind), (''label'', TextKind)]"
| "signature_of Rel_E =
     [(''id'', IdKind), (''from'', IdKind), (''to'', IdKind), (''label'', TextKind)]"
| "signature_of Rel_NP = [(''id'', IdKind), (''key'', TextKind), (''value'', TextKind)]"
| "signature_of Rel_EP = [(''id'', IdKind), (''key'', TextKind), (''value'', TextKind)]"

fun kind_of :: "fact_value \<Rightarrow> value_kind" where
  "kind_of (IdValue _) = IdKind"
| "kind_of (TextValue _) = TextKind"

text \<open>A list of ordered values fits a relation: same arity, same kind at each position.\<close>

definition fits_signature :: "relation \<Rightarrow> fact_value list \<Rightarrow> bool" where
  "fits_signature rel args = (map kind_of args = map snd (signature_of rel))"

text \<open>
  The request that carries a fact to \<^verbatim>\<open>/data/insert\<close>: the relation name, and the ordered
  values separated by commas, ids as decimal text and strings between double quotes.
\<close>

fun render_value :: "fact_value \<Rightarrow> string" where
  "render_value (IdValue i) = py_str i"
| "render_value (TextValue t) = dquote # t @ [dquote]"

fun join :: "string \<Rightarrow> string list \<Rightarrow> string" where
  "join sep [] = []"
| "join sep [x] = x"
| "join sep (x # y # ys) = x @ sep @ join sep (y # ys)"

definition insertFact :: "relation \<Rightarrow> fact_value list \<Rightarrow> json" where
  "insertFact rel args =
     JObj [(''relName'', JStr (relation_name rel)),
           (''args'', JStr (join '','' (map render_value args)))]"

subsection \<open>Transport failure\<close>






subsection \<open>What a response reports\<close>

text \<open>
  The \<^verbatim>\<open>success\<close> field of a response dict, as \<^verbatim>\<open>result.get("success", default)\<close> reads
  it.
\<close>

definition success_field :: "(string \<times> json) list \<Rightarrow> json \<Rightarrow> json" where
  "success_field kvs dflt = (case map_of kvs ''success'' of None \<Rightarrow> dflt | Some v \<Rightarrow> v)"

subsection \<open>A server on which the graph already exists\<close>

text \<open>
  Every request is answered with status 200; the answer to \<^verbatim>\<open>/graph/create\<close> reports a
  failure, every other one reports success. The world is the list of the requests
  received so far (URL and body).
\<close>

definition ok_response :: "string \<Rightarrow> json \<Rightarrow> response" where
  "ok_response target body =
     \<lparr>status_code = 200, reason = ''OK'', url = target, json_result = Inr body\<rparr>"

definition existing_graph_session :: "(string \<times> json option) list session" where
  "existing_graph_session =
     \<lparr>session_get = (\<lambda>target t w.
        (Inr (ok_response target (JObj [(''success'', JBool True)])), w @ [(target, None)])),
      session_post = (\<lambda>target data t w.
        (Inr (ok_response target
           (if target = ''http://localhost:7070/graph/create''
            then JObj [(''success'', JBool False), (''error'', JStr ''graph already exists'')]
            else JObj [(''success'', JBool True)])),
         w @ [(target, data)])),
      session_delete = (\<lambda>target t w.
        (Inr (ok_response target (JObj [(''success'', JBool True)])), w @ [(target, None)]))\<rparr>"

definition local_client :: "(string \<times> json option) list PGViewClient" where
  "local_client = PGViewClient_init ''http://localhost:7070'' 30 existing_graph_session"

subsection \<open>\<^verbatim>\<open>createView(definitionText)\<close>: the grammar of a view definition\<close>

text \<open>
  Following the specification's words, \<^verbatim>\<open>definitionText\<close> is
  \<^verbatim>\<open>CREATE [virtual] VIEW <name> ON <graphRef> [WITH DEFAULT MAP] ( MATCH <pattern>
  [WHERE <predicate>] [CONSTRUCT <pattern> SET <assignments>] )\<close>.
  The text is read as its whitespace-separated words. \<^verbatim>\<open><name>\<close> and \<^verbatim>\<open><graphRef>\<close> are one
  word each; a pattern, a predicate and the assignments are non-empty runs of words that
  are not clause keywords. The parts of a definition that was read:
\<close>

record view_definition =
  vd_virtual :: bool
  vd_name :: string
  vd_graph :: string
  vd_default_map :: bool
  vd_match :: "string list"
  vd_where :: "string list option"
  vd_construct :: "(string list \<times> string list) option"

definition clause_keyword :: "string \<Rightarrow> bool" where
  "clause_keyword w = (w \<in> set [''MATCH'', ''WHERE'', ''CONSTRUCT'', ''SET''])"

text \<open>An optional run of fixed words at the front.\<close>

definition strip_optional :: "string list \<Rightarrow> string list \<Rightarrow> bool \<times> string list" where
  "strip_optional kw ws =
     (if take (length kw) ws = kw then (True, drop (length kw) ws) else (False, ws))"

text \<open>\<^verbatim>\<open><pattern> [WHERE <predicate>] [CONSTRUCT <pattern> SET <assignments>]\<close>.\<close>

definition parse_where :: "string list \<Rightarrow> (string list option \<times> string list) option" where
  "parse_where ws =
     (case ws of
        [] \<Rightarrow> Some (None, [])
      | w # rest \<Rightarrow>
          if w = ''WHERE'' then
            (let pred = takeWhile (\<lambda>x. \<not> clause_keyword x) rest
             in if pred = [] then None
                else Some (Some pred, dropWhile (\<lambda>x. \<not> clause_keyword x) rest))
          else Some (None, ws))"

definition parse_construct :: "string list \<Rightarrow> (string list \<times> string list) option option" where
  "parse_construct ws =
     (case ws of
        [] \<Rightarrow> Some None
      | w # rest \<Rightarrow>
          if w = ''CONSTRUCT'' then
            (let pat = takeWhile (\<lambda>x. \<not> clause_keyword x) rest
             in case dropWhile (\<lambda>x. \<not> clause_keyword x) rest of
                  [] \<Rightarrow> None
                | s # assigns \<Rightarrow>
                    if s = ''SET'' \<and> pat \<noteq> [] \<and> assigns \<noteq> []
                       \<and> list_all (\<lambda>x. \<not> clause_keyword x) assigns
                    then Some (Some (pat, assigns)) else None)
          else None)"

definition parse_view_body ::
  "string list \<Rightarrow> (string list \<times> string list option \<times> (string list \<times> string list) option) option"
  where
  "parse_view_body ws =
     (let pat = takeWhile (\<lambda>x. \<not> clause_keyword x) ws
      in if pat = [] then None
         else
           (case parse_where (dropWhile (\<lambda>x. \<not> clause_keyword x) ws) of
              None \<Rightarrow> None
            | Some (wh, rest) \<Rightarrow>
                (case parse_construct rest of
                   None \<Rightarrow> None
                 | Some con \<Rightarrow> Some (pat, wh, con))))"

definition parse_view_definition :: "string \<Rightarrow> view_definition option" where
  "parse_view_definition text =
     (case py_split_ws text of
        [] \<Rightarrow> None
      | c # r0 \<Rightarrow>
          if c \<noteq> ''CREATE'' then None
          else
            (case strip_optional [''virtual''] r0 of
               (virt, v # name # on # gref # r2) \<Rightarrow>
                 if v \<noteq> ''VIEW'' \<or> on \<noteq> ''ON'' then None
                 else
                   (case strip_optional [''WITH'', ''DEFAULT'', ''MAP''] r2 of
                      (dm, lp # m # r4) \<Rightarrow>
                        if lp \<noteq> ''('' \<or> m \<noteq> ''MATCH'' \<or> r4 = [] \<or> last r4 \<noteq> '')'' then None
                        else
                          (case parse_view_body (butlast r4) of
                             None \<Rightarrow> None
                           | Some (pat, wh, con) \<Rightarrow>
                               Some \<lparr>vd_virtual = virt, vd_name = name, vd_graph = gref,
                                     vd_default_map = dm, vd_match = pat, vd_where = wh,
                                     vd_construct = con\<rparr>)
                    | _ \<Rightarrow> None)
             | _ \<Rightarrow> None))"



text \<open>Views of \<^verbatim>\<open>example_knowledge_graph.py\<close>, given to \<^verbatim>\<open>create_view\<close> as they stand.\<close>

definition view1 :: string where
  \<open>view1 = ''CREATE virtual VIEW PersonNetwork ON g (\<newline>''
     @ ''  MATCH (e1:Entity)-[r:RelatesTo]->(e2:Entity)\<newline>''
     @ ''  WHERE e1.type = "person" AND e2.type = "person"\<newline>)''\<close>

definition view4 :: string where
  \<open>view4 = ''CREATE virtual VIEW ExpertiseGraph ON g WITH DEFAULT MAP (\<newline>''
     @ ''  MATCH (p:Entity)-[r1:RelatesTo]->(t:Entity)\<newline>''
     @ ''  WHERE p.type = "person" AND t.type = "technology"\<newline>''
     @ ''  CONSTRUCT (p:Entity)-[x:HasExpertiseIn]->(t:Entity)\<newline>''
     @ ''  SET x = SK("expertise", p, t)\<newline>)''\<close>

section \<open>\<^verbatim>\<open>scripts/generate_dummy_data.py\<close>: the generator of the dummy graph\<close>

subsection \<open>The \<^verbatim>\<open>random\<close> module\<close>

text \<open>
  The state of the random number generator: the raw numbers it is going to produce, by
  position, and the position reached. Nothing is assumed of the numbers, so a
  statement for every generator state is a statement for every run.
\<close>

record rng =
  source :: "nat \<Rightarrow> nat"
  pos :: nat

definition next_raw :: "rng \<Rightarrow> nat \<times> rng" where
  "next_raw g = (source g (pos g), g\<lparr>pos := Suc (pos g)\<rparr>)"

text \<open>
  \<^verbatim>\<open>random.randint(a, b)\<close>: an integer from \<open>a\<close> to \<open>b\<close>, both included. Every call of
  the script has literal bounds with \<open>a \<le> b\<close> (Python raises otherwise).
\<close>

definition randint :: "int \<Rightarrow> int \<Rightarrow> rng \<Rightarrow> int \<times> rng" where
  "randint a b g = (case next_raw g of (r, g') \<Rightarrow> (a + int (r mod nat (b - a + 1)), g'))"

text \<open>\<^verbatim>\<open>random.choice(xs)\<close> for a list that is not empty (every list of the script).\<close>

definition choice :: "'a list \<Rightarrow> rng \<Rightarrow> 'a \<times> rng" where
  "choice xs g = (case next_raw g of (r, g') \<Rightarrow> (xs ! (r mod length xs), g'))"

text \<open>\<^verbatim>\<open>random.random() < num / den\<close>: one draw, true for \<open>num\<close> outcomes out of \<open>den\<close>.\<close>

definition random_below :: "nat \<Rightarrow> nat \<Rightarrow> rng \<Rightarrow> bool \<times> rng" where
  "random_below num den g = (case next_raw g of (r, g') \<Rightarrow> (r mod den < num, g'))"

text \<open>
  \<^verbatim>\<open>round(random.uniform(lo, hi), places)\<close>, as the text Python prints for the float:
  some multiple of \<open>10 ^ -places\<close> from \<open>lo\<close> to \<open>hi\<close>, written without trailing zeros
  but with one decimal at least.
\<close>

fun strip_zeros :: "string \<Rightarrow> string" where
  "strip_zeros s = rev (dropWhile (\<lambda>c. c = CHR ''0'') (rev s))"

fun pad_left :: "nat \<Rightarrow> string \<Rightarrow> string" where
  "pad_left n s = replicate (n - length s) CHR ''0'' @ s"

definition decimal_text :: "nat \<Rightarrow> nat \<Rightarrow> string" where
  "decimal_text places v =
     (let frac = strip_zeros (pad_left places (str_nat (v mod 10 ^ places)))
      in str_nat (v div 10 ^ places) @ ''.'' @ (if frac = [] then ''0'' else frac))"

definition uniform_rounded :: "nat \<Rightarrow> nat \<Rightarrow> nat \<Rightarrow> rng \<Rightarrow> string \<times> rng" where
  "uniform_rounded lo hi places g =
     (case next_raw g of
        (r, g') \<Rightarrow> (decimal_text places (lo + r mod (hi - lo + 1)), g'))"

subsection \<open>Configuration and word lists\<close>

definition NUM_PERSONS :: int where
  "NUM_PERSONS = 300"

definition NUM_COMPANIES :: int where
  "NUM_COMPANIES = 100"

definition NUM_PRODUCTS :: int where
  "NUM_PRODUCTS = 100"

definition TOTAL_NODES :: int where
  "TOTAL_NODES = NUM_PERSONS + NUM_COMPANIES + NUM_PRODUCTS"

definition first_names :: "string list" where
  "first_names = [''John'', ''Jane'', ''Michael'', ''Sarah'', ''David'', ''Emma'', ''Chris'',
     ''Lisa'', ''Ryan'', ''Amy'', ''Alex'', ''Maria'', ''Tom'', ''Laura'', ''Kevin'', ''Anna'',
     ''Sam'', ''Nina'', ''Jake'', ''Sophia'']"

definition last_names :: "string list" where
  "last_names = [''Smith'', ''Johnson'', ''Williams'', ''Brown'', ''Jones'', ''Garcia'',
     ''Miller'', ''Davis'', ''Martinez'', ''Wilson'', ''Anderson'', ''Taylor'', ''Thomas'',
     ''Moore'', ''Jackson'', ''Martin'', ''Lee'', ''Thompson'', ''White'', ''Harris'']"

definition cities :: "string list" where
  "cities = [''New York'', ''Los Angeles'', ''Chicago'', ''Houston'', ''Phoenix'',
     ''Philadelphia'', ''San Antonio'', ''San Diego'', ''Dallas'', ''San Jose'', ''Austin'',
     ''Jacksonville'', ''San Francisco'', ''Seattle'', ''Denver'']"

definition companies :: "string list" where
  "companies = [''TechCorp'', ''DataSystems'', ''CloudNet'', ''InfoTech'', ''CyberSolutions'',
     ''WebServices'', ''AppDev'', ''SoftwarePlus'', ''DigitalWorks'', ''CodeFactory'']"

definition products :: "string list" where
  "products = [''Laptop'', ''Smartphone'', ''Tablet'', ''Headphones'', ''Keyboard'', ''Mouse'',
     ''Monitor'', ''Camera'', ''Printer'', ''Speaker'']"

definition departments :: "string list" where
  "departments = [''Engineering'', ''Sales'', ''Marketing'', ''HR'', ''Finance'', ''Operations'',
     ''IT'', ''Support'']"

subsection \<open>Nodes and edges\<close>

text \<open>
  The dicts the script builds, with their fixed keys \<^verbatim>\<open>id\<close>, \<^verbatim>\<open>label\<close>, \<^verbatim>\<open>from\<close>, \<^verbatim>\<open>to\<close> and
  \<^verbatim>\<open>properties\<close>. The values of a dict display are evaluated from left to right, which
  fixes the order of the draws.
\<close>

record node =
  n_id :: int
  n_label :: string
  n_properties :: "(string \<times> json) list"

record edge =
  e_id :: int
  e_from :: int
  e_to :: int
  e_label :: string
  e_properties :: "(string \<times> json) list"

text \<open>The module-level variables that the loops update.\<close>

record gen_state =
  rng_state :: rng
  nodes :: "node list"
  edges :: "edge list"
  edge_id :: int

definition person_node :: "int \<Rightarrow> rng \<Rightarrow> node \<times> rng" where
  "person_node i g =
     (case choice first_names g of (first_name, g1) \<Rightarrow>
      case choice last_names g1 of (last_name, g2) \<Rightarrow>
      case randint 22 65 g2 of (age, g3) \<Rightarrow>
      case choice cities g3 of (city, g4) \<Rightarrow>
        (\<lparr>n_id = i, n_label = ''Person'',
          n_properties =
            [(''name'', JStr (first_name @ '' '' @ last_name)), (''age'', JInt age),
             (''city'', JStr city),
             (''email'', JStr (''user'' @ py_str i @ ''@example.com''))]\<rparr>, g4))"

definition company_node :: "int \<Rightarrow> rng \<Rightarrow> node \<times> rng" where
  "company_node i g =
     (case choice companies g of (name, g1) \<Rightarrow>
      case choice [''Technology'', ''Finance'', ''Healthcare'', ''Retail'', ''Manufacturing''] g1
        of (industry, g2) \<Rightarrow>
      case choice [''Small'', ''Medium'', ''Large'', ''Enterprise''] g2 of (size_name, g3) \<Rightarrow>
      case randint 1990 2023 g3 of (founded, g4) \<Rightarrow>
        (\<lparr>n_id = i, n_label = ''Company'',
          n_properties =
            [(''name'', JStr (name @ '' '' @ py_str (i - NUM_PERSONS))),
             (''industry'', JStr industry), (''size'', JStr size_name),
             (''founded'', JInt founded)]\<rparr>, g4))"

definition product_node :: "int \<Rightarrow> rng \<Rightarrow> node \<times> rng" where
  "product_node i g =
     (case choice products g of (name, g1) \<Rightarrow>
      case uniform_rounded 5000 200000 2 g1 of (price, g2) \<Rightarrow>
      case choice [''Electronics'', ''Computing'', ''Accessories'', ''Audio''] g2
        of (category, g3) \<Rightarrow>
      case uniform_rounded 35 50 1 g3 of (rating, g4) \<Rightarrow>
        (\<lparr>n_id = i, n_label = ''Product'',
          n_properties =
            [(''name'', JStr (name @ '' Pro '' @ py_str (i - NUM_PERSONS - NUM_COMPANIES))),
             (''price'', JFloat price), (''category'', JStr category),
             (''rating'', JFloat rating)]\<rparr>, g4))"

text \<open>\<^verbatim>\<open>nodes.append(node)\<close> at the end of the body of each of the three node loops.\<close>

definition add_node :: "(int \<Rightarrow> rng \<Rightarrow> node \<times> rng) \<Rightarrow> int \<Rightarrow> gen_state \<Rightarrow> gen_state" where
  "add_node build i s =
     (case build i (rng_state s) of (n, g') \<Rightarrow> s\<lparr>rng_state := g', nodes := nodes s @ [n]\<rparr>)"

text \<open>\<^verbatim>\<open>edges.append(edge)\<close> followed by \<^verbatim>\<open>edge_id += 1\<close>.\<close>

definition append_edge ::
  "int \<Rightarrow> int \<Rightarrow> string \<Rightarrow> (string \<times> json) list \<Rightarrow> gen_state \<Rightarrow> gen_state" where
  "append_edge from_node to_node label props s =
     s\<lparr>edges := edges s @ [\<lparr>e_id = edge_id s, e_from = from_node, e_to = to_node,
                              e_label = label, e_properties = props\<rparr>],
       edge_id := edge_id s + 1\<rparr>"

text \<open>The body of the \<^verbatim>\<open>works_at\<close> loop: seven persons out of ten are employed.\<close>

definition works_at_step :: "int \<Rightarrow> gen_state \<Rightarrow> gen_state" where
  "works_at_step person_id s =
     (case random_below 7 10 (rng_state s) of
        (employed, g1) \<Rightarrow>
          if employed then
            (case randint (NUM_PERSONS + 1) (NUM_PERSONS + NUM_COMPANIES) g1 of (company_id, g2) \<Rightarrow>
             case choice departments g2 of (department, g3) \<Rightarrow>
             case randint 1 15 g3 of (years, g4) \<Rightarrow>
             case choice [''Engineer'', ''Manager'', ''Analyst'', ''Director'', ''Specialist''] g4
               of (role, g5) \<Rightarrow>
             case randint 50000 200000 g5 of (salary, g6) \<Rightarrow>
               append_edge person_id company_id ''works_at''
                 [(''department'', JStr department), (''years'', JInt years),
                  (''role'', JStr role), (''salary'', JInt salary)]
                 (s\<lparr>rng_state := g6\<rparr>))
          else s\<lparr>rng_state := g1\<rparr>)"

text \<open>The body of the inner \<^verbatim>\<open>knows\<close> loop: a drawn friend who is the person is skipped.\<close>

definition knows_step :: "int \<Rightarrow> gen_state \<Rightarrow> gen_state" where
  "knows_step person_id s =
     (case randint 1 NUM_PERSONS (rng_state s) of
        (friend_id, g1) \<Rightarrow>
          if friend_id \<noteq> person_id then
            (case randint 2010 2024 g1 of (since, g2) \<Rightarrow>
             case choice [''friend'', ''colleague'', ''family'', ''acquaintance''] g2
               of (relationship, g3) \<Rightarrow>
             case choice [''daily'', ''weekly'', ''monthly'', ''rarely''] g3 of (frequency, g4) \<Rightarrow>
               append_edge person_id friend_id ''knows''
                 [(''since'', JInt since), (''relationship'', JStr relationship),
                  (''contact_frequency'', JStr frequency)]
                 (s\<lparr>rng_state := g4\<rparr>))
          else s\<lparr>rng_state := g1\<rparr>)"

text \<open>\<^verbatim>\<open>f"{n:02d}"\<close> for a number that is not negative.\<close>

definition two_digits :: "int \<Rightarrow> string" where
  "two_digits n = pad_left 2 (py_str n)"

definition bought_step :: "int \<Rightarrow> gen_state \<Rightarrow> gen_state" where
  "bought_step person_id s =
     (case randint (NUM_PERSONS + NUM_COMPANIES + 1) TOTAL_NODES (rng_state s) of
        (product_id, g1) \<Rightarrow>
      case randint 1 12 g1 of (month, g2) \<Rightarrow>
      case randint 1 28 g2 of (day, g3) \<Rightarrow>
      case randint 1 3 g3 of (quantity, g4) \<Rightarrow>
      case randint 1 5 g4 of (review_score, g5) \<Rightarrow>
        append_edge person_id product_id ''bought''
          [(''date'', JStr (''2024-'' @ two_digits month @ ''-'' @ two_digits day)),
           (''quantity'', JInt quantity), (''review_score'', JInt review_score)]
          (s\<lparr>rng_state := g5\<rparr>))"

definition produces_step :: "int \<Rightarrow> gen_state \<Rightarrow> gen_state" where
  "produces_step company_id s =
     (case randint (NUM_PERSONS + NUM_COMPANIES + 1) TOTAL_NODES (rng_state s) of
        (product_id, g1) \<Rightarrow>
      case randint 2015 2024 g1 of (since, g2) \<Rightarrow>
      case randint 100 10000 g2 of (volume, g3) \<Rightarrow>
        append_edge company_id product_id ''produces''
          [(''since'', JInt since), (''volume'', JInt volume)]
          (s\<lparr>rng_state := g3\<rparr>))"

text \<open>
  An outer loop body of the last three edge loops: draw how many times the inner body
  runs (\<^verbatim>\<open>for _ in range(n)\<close>), then run it.
\<close>

definition repeat_step ::
  "int \<Rightarrow> int \<Rightarrow> (int \<Rightarrow> gen_state \<Rightarrow> gen_state) \<Rightarrow> int \<Rightarrow> gen_state \<Rightarrow> gen_state" where
  "repeat_step lo hi body subject s =
     (case randint lo hi (rng_state s) of
        (n, g1) \<Rightarrow> fold (\<lambda>_. body subject) [0..<nat n] (s\<lparr>rng_state := g1\<rparr>))"

text \<open>The script, from the empty lists to the lists it dumps.\<close>

definition generate_nodes :: "gen_state \<Rightarrow> gen_state" where
  "generate_nodes s0 =
     (let s1 = fold (add_node person_node) [1..NUM_PERSONS] s0;
          s2 = fold (add_node company_node) [NUM_PERSONS + 1..NUM_PERSONS + NUM_COMPANIES] s1
      in fold (add_node product_node) [NUM_PERSONS + NUM_COMPANIES + 1..TOTAL_NODES] s2)"

definition generate_edges :: "gen_state \<Rightarrow> gen_state" where
  "generate_edges s0 =
     (let s1 = fold works_at_step [1..NUM_PERSONS] (s0\<lparr>edge_id := 1000\<rparr>);
          s2 = fold (repeat_step 2 10 knows_step) [1..NUM_PERSONS] s1;
          s3 = fold (repeat_step 1 5 bought_step) [1..NUM_PERSONS] s2
      in fold (repeat_step 1 5 produces_step)
           [NUM_PERSONS + 1..NUM_PERSONS + NUM_COMPANIES] s3)"

definition generate_dummy_data :: "rng \<Rightarrow> gen_state" where
  "generate_dummy_data g =
     generate_edges (generate_nodes \<lparr>rng_state = g, nodes = [], edges = [], edge_id = 0\<rparr>)"

text \<open>The \<^verbatim>\<open>data\<close> dict that \<^verbatim>\<open>json.dump\<close> writes to \<^verbatim>\<open>scripts/dummy_graph_data.json\<close>.\<close>

definition node_json :: "node \<Rightarrow> json" where
  "node_json n =
     JObj [(''id'', JInt (n_id n)), (''label'', JStr (n_label n)),
           (''properties'', JObj (n_properties n))]"

definition edge_json :: "edge \<Rightarrow> json" where
  "edge_json e =
     JObj [(''id'', JInt (e_id e)), (''from'', JInt (e_from e)), (''to'', JInt (e_to e)),
           (''label'', JStr (e_label e)), (''properties'', JObj (e_properties e))]"

definition count_label :: "string \<Rightarrow> edge list \<Rightarrow> int" where
  "count_label l es = int (length (filter (\<lambda>e. e_label e = l) es))"

definition data_json :: "gen_state \<Rightarrow> json" where
  "data_json s =
     JObj [(''nodes'', JArr (map node_json (nodes s))),
           (''edges'', JArr (map edge_json (edges s))),
           (''summary'',
            JObj [(''total_nodes'', JInt (int (length (nodes s)))),
                  (''total_edges'', JInt (int (length (edges s)))),
                  (''node_types'',
                   JObj [(''Person'', JInt NUM_PERSONS), (''Company'', JInt NUM_COMPANIES),
                         (''Product'', JInt NUM_PRODUCTS)]),
                  (''edge_types'',
                   JObj [(''works_at'', JInt (count_label ''works_at'' (edges s))),
                         (''knows'', JInt (count_label ''knows'' (edges s))),
                         (''bought'', JInt (count_label ''bought'' (edges s))),
                         (''produces'', JInt (count_label ''produces'' (edges s)))])])]"

section \<open>\<^verbatim>\<open>scripts/load_dummy_data.py\<close>: the loader of the dummy graph\<close>

subsection \<open>The schema it declares\<close>

text \<open>
  The entries of the list \<^verbatim>\<open>schemas\<close> of \<^verbatim>\<open>load_data\<close>: a node label, or an edge label with
  the labels of its endpoints (\<^verbatim>\<open>from\<close>, \<^verbatim>\<open>to\<close>).
\<close>

datatype schema_entry = NodeSchema string | EdgeSchema string string string

definition schemas :: "schema_entry list" where
  "schemas =
     [NodeSchema ''Person'', NodeSchema ''Company'', NodeSchema ''Product'',
      EdgeSchema ''works_at'' ''Person'' ''Company'',
      EdgeSchema ''knows'' ''Person'' ''Person'',
      EdgeSchema ''bought'' ''Person'' ''Product'',
      EdgeSchema ''produces'' ''Company'' ''Product'']"

section \<open>Properties of the generated graph\<close>

text \<open>The label of the node with a given id, if there is one.\<close>

definition label_of_node :: "node list \<Rightarrow> int \<Rightarrow> string option" where
  "label_of_node ns i = map_of (map (\<lambda>n. (n_id n, n_label n)) ns) i"

text \<open>The four kinds of edges, each with the ranges of ids of its endpoints.\<close>

definition endpoints_ok :: "edge \<Rightarrow> bool" where
  "endpoints_ok e =
     (e_label e = ''works_at'' \<and> 1 \<le> e_from e \<and> e_from e \<le> 300
        \<and> 301 \<le> e_to e \<and> e_to e \<le> 400
      \<or> e_label e = ''knows'' \<and> 1 \<le> e_from e \<and> e_from e \<le> 300
        \<and> 1 \<le> e_to e \<and> e_to e \<le> 300
      \<or> e_label e = ''bought'' \<and> 1 \<le> e_from e \<and> e_from e \<le> 300
        \<and> 401 \<le> e_to e \<and> e_to e \<le> 500
      \<or> e_label e = ''produces'' \<and> 301 \<le> e_from e \<and> e_from e \<le> 400
        \<and> 401 \<le> e_to e \<and> e_to e \<le> 500)"

text \<open>Edge ids are handed out one by one from 1000, in the order of the list.\<close>

definition ids_consecutive :: "gen_state \<Rightarrow> bool" where
  "ids_consecutive s =
     (map e_id (edges s) = map (\<lambda>k. 1000 + int k) [0..<length (edges s)]
      \<and> edge_id s = 1000 + int (length (edges s)))"

text \<open>
  What the edge loops maintain: the ids are consecutive, the endpoints of every edge are
  in the ranges of its kind, and the list of nodes stays \<open>ns\<close>.
\<close>

definition edges_inv :: "node list \<Rightarrow> gen_state \<Rightarrow> bool" where
  "edges_inv ns s = (ids_consecutive s \<and> list_all endpoints_ok (edges s) \<and> nodes s = ns)"

text \<open>A generator that draws 0 every time.\<close>

definition zero_rng :: rng where
  "zero_rng = \<lparr>source = (\<lambda>_. 0), pos = 0\<rparr>"

text \<open>The first edge of that run: the first person is employed by the first company.\<close>

definition first_edge :: edge where
  "first_edge =
     \<lparr>e_id = 1000, e_from = 1, e_to = 301, e_label = ''works_at'',
      e_properties = [(''department'', JStr ''Engineering''), (''years'', JInt 1),
                      (''role'', JStr ''Engineer''), (''salary'', JInt 50000)]\<rparr>"

section \<open>\<^verbatim>\<open>scripts/load_movielens_data.py\<close>: the loader of the MovieLens graph\<close>

subsection \<open>Scripts as sequences of steps\<close>

text \<open>
  A loader is a straight run of HTTP requests. It is modelled by the sequence of steps
  it would take: \<open>Do c\<close> issues \<open>c\<close>, \<open>Raise e\<close> is an exception raised by the script itself
  (a missing key, say). No loader catches an exception inside \<^verbatim>\<open>load_data\<close>, so a run
  executes the steps up to the first \<open>Raise\<close>, and fewer when a request fails: what was
  issued is always a prefix of \<open>issued\<close>.
\<close>

datatype 'c step = Do 'c | Raise exn

fun is_Do :: "'c step \<Rightarrow> bool" where
  "is_Do (Do _) = True"
| "is_Do (Raise _) = False"

fun issued :: "'c step list \<Rightarrow> 'c list" where
  "issued [] = []"
| "issued (Do c # rest) = c # issued rest"
| "issued (Raise e # rest) = []"

text \<open>\<^verbatim>\<open>d[key]\<close> on a dict; \<open>shown\<close> is the key as the \<^verbatim>\<open>KeyError\<close> shows it.\<close>

definition lookup :: "('k \<times> 'v) list \<Rightarrow> 'k \<Rightarrow> string \<Rightarrow> exn + 'v" where
  "lookup d k shown = (case map_of d k of None \<Rightarrow> Inl (KeyError shown) | Some v \<Rightarrow> Inr v)"

subsection \<open>The commands sent to \<^verbatim>\<open>/execute\<close>\<close>

text \<open>
  The script formats each command with an f-string from integers and strings; the
  command is kept with its parts, and \<open>command_text\<close> is the text posted.
\<close>

datatype command =
    InsertN int string
  | InsertNP int string string
  | InsertE int int int string
  | InsertEP int string string
  | CreateView string

fun command_text :: "command \<Rightarrow> string" where
  \<open>command_text (InsertN i l) = ''insert N('' @ py_str i @ '', "'' @ l @ ''");''\<close>
| \<open>command_text (InsertNP i k v) =
     ''insert NP('' @ py_str i @ '', "'' @ k @ ''", "'' @ v @ ''");''\<close>
| \<open>command_text (InsertE e f t l) =
     ''insert E('' @ py_str e @ '', '' @ py_str f @ '', '' @ py_str t @ '', "'' @ l @ ''");''\<close>
| \<open>command_text (InsertEP e k v) =
     ''insert EP('' @ py_str e @ '', "'' @ k @ ''", "'' @ v @ ''");''\<close>
| \<open>command_text (CreateView text) = text\<close>

definition API_URL :: string where
  "API_URL = ''http://localhost:7070''"

text \<open>\<^verbatim>\<open>requests.post(f"{API_URL}/execute", json={"command": cmd})\<close>: URL and body.\<close>

definition execute_request :: "command \<Rightarrow> string \<times> json" where
  "execute_request c = (API_URL @ ''/execute'', JObj [(''command'', JStr (command_text c))])"

text \<open>\<^verbatim>\<open>value.replace('"', '\\"')\<close>: a backslash is put before every double quote.\<close>

definition escape_quotes :: "string \<Rightarrow> string" where
  "escape_quotes s = replace_char dquote [backslash, dquote] s"

subsection \<open>Reading the CSV files\<close>

text \<open>
  The rows of \<^verbatim>\<open>movies.csv\<close> and \<^verbatim>\<open>ratings.csv\<close> as \<^verbatim>\<open>csv.DictReader\<close> yields them, with the
  numeric fields converted already (\<^verbatim>\<open>int(...)\<close>, \<^verbatim>\<open>float(...)\<close>; a field that does not
  convert raises in \<^verbatim>\<open>load_movies\<close> or \<^verbatim>\<open>load_ratings\<close>, before any command is issued). A
  rating is kept as the text Python prints for the float.
\<close>

record movie_row =
  mr_movieId :: int
  mr_title :: string
  mr_genres :: string

record rating_row =
  rr_userId :: int
  rr_movieId :: int
  rr_rating :: string
  rr_timestamp :: int

record movie =
  m_id :: int
  m_title :: string
  m_genres :: "string list"

text \<open>
  \<^verbatim>\<open>load_movies(data_dir, limit)\<close>: a dict from movie id to movie, in insertion order; a
  repeated id replaces the movie and keeps its place.
\<close>

definition movie_of_row :: "movie_row \<Rightarrow> movie" where
  "movie_of_row row =
     \<lparr>m_id = mr_movieId row, m_title = mr_title row,
      m_genres = (if mr_genres row \<noteq> ''(no genres listed)''
                  then split_from ''|'' [] (mr_genres row) else [])\<rparr>"

definition load_movies :: "movie_row list \<Rightarrow> nat \<Rightarrow> (int \<times> movie) list" where
  "load_movies rows limit =
     fold (\<lambda>row movies. AList.update (mr_movieId row) (movie_of_row row) movies)
       (take limit rows) []"

text \<open>\<^verbatim>\<open>load_ratings(data_dir, movie_ids, limit)\<close>: the ratings of the loaded movies.\<close>

definition load_ratings :: "rating_row list \<Rightarrow> int set \<Rightarrow> nat \<Rightarrow> rating_row list" where
  "load_ratings rows movie_ids limit =
     filter (\<lambda>row. rr_movieId row \<in> movie_ids) (take limit rows)"

subsection \<open>\<^verbatim>\<open>load_data\<close>: mappings and inserts\<close>

text \<open>
  Step 7, one mapping loop: \<^verbatim>\<open>for k in keys: id_map[k] = node_id; node_id += 1\<close>. The
  state is the dict and the counter.
\<close>

definition map_ids :: "'k list \<Rightarrow> ('k \<times> int) list \<times> int \<Rightarrow> ('k \<times> int) list \<times> int" where
  "map_ids keys st = fold (\<lambda>k (id_map, node_id). (AList.update k node_id id_map, node_id + 1)) keys st"

text \<open>Steps 8 to 10: a node and its properties, for a movie, a user, a genre.\<close>

definition movie_steps :: "(int \<times> int) list \<Rightarrow> int \<times> movie \<Rightarrow> command step list" where
  "movie_steps movie_id_map entry =
     (case entry of
        (movie_id_orig, movie_data) \<Rightarrow>
          (case lookup movie_id_map movie_id_orig (py_str movie_id_orig) of
             Inl e \<Rightarrow> [Raise e]
           | Inr node_id \<Rightarrow>
               [Do (InsertN node_id ''Movie''),
                Do (InsertNP node_id ''title'' (escape_quotes (m_title movie_data))),
                Do (InsertNP node_id ''movieId'' (py_str movie_id_orig))]))"

definition user_steps :: "(int \<times> int) list \<Rightarrow> int \<Rightarrow> command step list" where
  "user_steps user_id_map user_id_orig =
     (case lookup user_id_map user_id_orig (py_str user_id_orig) of
        Inl e \<Rightarrow> [Raise e]
      | Inr node_id \<Rightarrow>
          [Do (InsertN node_id ''User''), Do (InsertNP node_id ''userId'' (py_str user_id_orig))])"

definition genre_steps :: "(string \<times> int) list \<Rightarrow> string \<Rightarrow> command step list" where
  "genre_steps genre_id_map genre =
     (case lookup genre_id_map genre genre of
        Inl e \<Rightarrow> [Raise e]
      | Inr node_id \<Rightarrow> [Do (InsertN node_id ''Genre''), Do (InsertNP node_id ''name'' genre)])"

text \<open>
  Steps 11 and 12: the edges. \<open>edge_id\<close> goes up by one after each edge; the state of
  the loops is the counter and the steps so far.
\<close>

definition rated_steps ::
  "(int \<times> int) list \<Rightarrow> (int \<times> int) list \<Rightarrow> rating_row \<Rightarrow> int \<times> command step list
     \<Rightarrow> int \<times> command step list" where
  "rated_steps user_id_map movie_id_map rating st =
     (case st of
        (eid, steps) \<Rightarrow>
          (case lookup user_id_map (rr_userId rating) (py_str (rr_userId rating)) of
             Inl e \<Rightarrow> (eid, steps @ [Raise e])
           | Inr from_id \<Rightarrow>
               (case lookup movie_id_map (rr_movieId rating) (py_str (rr_movieId rating)) of
                  Inl e \<Rightarrow> (eid, steps @ [Raise e])
                | Inr to_id \<Rightarrow>
                    (eid + 1,
                     steps @ [Do (InsertE eid from_id to_id ''RATED''),
                              Do (InsertEP eid ''rating'' (rr_rating rating)),
                              Do (InsertEP eid ''timestamp'' (py_str (rr_timestamp rating)))]))))"

definition genre_edge_steps ::
  "(string \<times> int) list \<Rightarrow> int \<Rightarrow> string \<Rightarrow> int \<times> command step list
     \<Rightarrow> int \<times> command step list" where
  "genre_edge_steps genre_id_map movie_node_id genre st =
     (case st of
        (eid, steps) \<Rightarrow>
          (case lookup genre_id_map genre genre of
             Inl e \<Rightarrow> (eid, steps @ [Raise e])
           | Inr genre_node_id \<Rightarrow>
               (eid + 1, steps @ [Do (InsertE eid movie_node_id genre_node_id ''HAS_GENRE'')])))"

definition has_genre_steps ::
  "(int \<times> int) list \<Rightarrow> (string \<times> int) list \<Rightarrow> int \<times> movie \<Rightarrow> int \<times> command step list
     \<Rightarrow> int \<times> command step list" where
  "has_genre_steps movie_id_map genre_id_map entry st =
     (case entry of
        (movie_id_orig, movie_data) \<Rightarrow>
          (case lookup movie_id_map movie_id_orig (py_str movie_id_orig) of
             Inl e \<Rightarrow> (fst st, snd st @ [Raise e])
           | Inr movie_node_id \<Rightarrow>
               fold (genre_edge_steps genre_id_map movie_node_id) (m_genres movie_data) st))"

text \<open>Step 13: the two views, sent to \<^verbatim>\<open>/execute\<close> as they are written in the script.\<close>

definition movie_genre_view :: string where
  "movie_genre_view =
     ''CREATE virtual VIEW MovieGenreView ON g (\<newline>  MATCH (m:Movie)-[h:HAS_GENRE]->(g:Genre)\<newline>);''"

definition highly_rated_view :: string where
  "highly_rated_view =
     ''CREATE virtual VIEW HighlyRatedView ON g (\<newline>  MATCH (u:User)-[r:RATED]->(m:Movie)\<newline>);''"

text \<open>
  Steps 2 and 7 to 13 of \<^verbatim>\<open>load_data\<close>, from the rows of the two files. \<open>enum\<close> is the
  order in which Python iterates over a set of integers (the set \<^verbatim>\<open>users\<close>): some list of
  its elements. The set of genres is only ever iterated sorted.
\<close>

definition insert_steps ::
  "(int list \<Rightarrow> int list) \<Rightarrow> movie_row list \<Rightarrow> rating_row list \<Rightarrow> command step list" where
  "insert_steps enum movie_rows rating_rows =
     (let movies = load_movies movie_rows 500;
          movie_ids = set (map fst movies);
          ratings = load_ratings rating_rows movie_ids 5000;
          users = enum (map rr_userId ratings);
          all_genres = sort (remdups (concat (map (\<lambda>entry. m_genres (snd entry)) movies)));
          (movie_id_map, n1) = map_ids (map fst movies) ([], 1);
          (user_id_map, n2) = map_ids users ([], n1);
          (genre_id_map, n3) = map_ids all_genres ([], n2);
          node_steps =
            concat (map (movie_steps movie_id_map) movies)
            @ concat (map (user_steps user_id_map) users)
            @ concat (map (genre_steps genre_id_map) all_genres);
          (e1, rated) = fold (rated_steps user_id_map movie_id_map) ratings (1, []);
          (e2, has_genre) = fold (has_genre_steps movie_id_map genre_id_map) movies (e1, [])
      in node_steps @ rated @ has_genre
         @ [Do (CreateView movie_genre_view), Do (CreateView highly_rated_view)])"

text \<open>
  The whole of \<^verbatim>\<open>load_data\<close>. It exits at once when the health check fails, and returns
  before any command when the server does not report success for \<^verbatim>\<open>/connect\<close> or
  \<^verbatim>\<open>/graph/use\<close> (\<open>connected\<close>, \<open>selected\<close>: the truth of \<^verbatim>\<open>response.json().get('success')\<close>).
  The requests posted are given by URL and body, in the order they are sent (the
  \<^verbatim>\<open>GET\<close> requests of the health check and of the download are not listed).
\<close>

definition movielens_schemas :: "schema_entry list" where
  "movielens_schemas =
     [NodeSchema ''Movie'', NodeSchema ''User'', NodeSchema ''Genre'',
      EdgeSchema ''RATED'' ''User'' ''Movie'', EdgeSchema ''HAS_GENRE'' ''Movie'' ''Genre'']"

fun schema_request_of :: "schema_entry \<Rightarrow> string \<times> json" where
  "schema_request_of (NodeSchema l) = (API_URL @ ''/schema/node'', JObj [(''label'', JStr l)])"
| "schema_request_of (EdgeSchema l f t) =
     (API_URL @ ''/schema/edge'',
      JObj [(''label'', JStr l), (''from'', JStr f), (''to'', JStr t)])"

definition load_movielens_data ::
  "(int list \<Rightarrow> int list) \<Rightarrow> bool \<Rightarrow> bool \<Rightarrow> bool \<Rightarrow> movie_row list \<Rightarrow> rating_row list
     \<Rightarrow> (string \<times> json) step list" where
  "load_movielens_data enum healthy connected selected movie_rows rating_rows =
     (if \<not> healthy then []
      else
        Do (API_URL @ ''/connect'', JObj [(''platform'', JStr ''pg'')])
        # (if \<not> connected then []
           else
             Do (API_URL @ ''/graph/create'', JObj [(''name'', JStr ''MovieLens'')])
             # Do (API_URL @ ''/graph/use'', JObj [(''name'', JStr ''MovieLens'')])
             # (if \<not> selected then []
                else
                  map (\<lambda>s. Do (schema_request_of s)) movielens_schemas
                  @ map (map_step execute_request)
                      (insert_steps enum movie_rows rating_rows))))"

subsection \<open>What the MovieLens loader is checked for\<close>

text \<open>
  A command is in order after the commands \<open>before\<close> it: an \<^verbatim>\<open>insert E\<close> is a \<^verbatim>\<open>RATED\<close> edge
  from an inserted \<^verbatim>\<open>User\<close> node to an inserted \<^verbatim>\<open>Movie\<close> node, or a \<^verbatim>\<open>HAS_GENRE\<close> edge from
  an inserted \<^verbatim>\<open>Movie\<close> node to an inserted \<^verbatim>\<open>Genre\<close> node. Other commands are not
  constrained.
\<close>

fun endpoints_inserted :: "command list \<Rightarrow> command \<Rightarrow> bool" where
  "endpoints_inserted before (InsertE e f t l) =
     (l = ''RATED'' \<and> InsertN f ''User'' \<in> set before \<and> InsertN t ''Movie'' \<in> set before
      \<or> l = ''HAS_GENRE'' \<and> InsertN f ''Movie'' \<in> set before
        \<and> InsertN t ''Genre'' \<in> set before)"
| "endpoints_inserted before _ = True"

fun is_InsertE :: "command \<Rightarrow> bool" where
  "is_InsertE (InsertE e f t l) = True"
| "is_InsertE _ = False"

text \<open>
  The state of an edge loop is in order when no step so far is a \<open>Raise\<close> and every
  command so far is in order after the node commands \<open>ns\<close>.
\<close>

definition edge_loop_ok :: "command list \<Rightarrow> int \<times> command step list \<Rightarrow> bool" where
  "edge_loop_ok ns st = (\<exists>cs. snd st = map Do cs \<and> (\<forall>c \<in> set cs. endpoints_inserted ns c))"

text \<open>The id a mapping gives to a key.\<close>

definition id_of :: "('k \<times> int) list \<Rightarrow> 'k \<Rightarrow> int" where
  "id_of id_map k = the (map_of id_map k)"

text \<open>Two movies, the second without genres, and three ratings, one of an unknown movie.\<close>

definition demo_movies :: "movie_row list" where
  "demo_movies =
     [\<lparr>mr_movieId = 10, mr_title = ''Heat (1995)'', mr_genres = ''Action|Crime''\<rparr>,
      \<lparr>mr_movieId = 20, mr_title = ''Nixon (1995)'', mr_genres = ''(no genres listed)''\<rparr>]"

definition demo_ratings :: "rating_row list" where
  "demo_ratings =
     [\<lparr>rr_userId = 7, rr_movieId = 10, rr_rating = ''4.0'', rr_timestamp = 964\<rparr>,
      \<lparr>rr_userId = 7, rr_movieId = 99, rr_rating = ''3.5'', rr_timestamp = 965\<rparr>,
      \<lparr>rr_userId = 8, rr_movieId = 20, rr_rating = ''5.0'', rr_timestamp = 966\<rparr>]"

section \<open>\<^verbatim>\<open>scripts/load_dummy_data.py\<close>: the run of the loader\<close>

subsection \<open>Reading the decoded data file\<close>

text \<open>\<^verbatim>\<open>v[key]\<close> with a string key: a missing key, or a value that is not a dict, raises.\<close>

fun py_item :: "json \<Rightarrow> string \<Rightarrow> exn + json" where
  "py_item (JObj kvs) k = (case map_of kvs k of None \<Rightarrow> Inl (KeyError k) | Some v \<Rightarrow> Inr v)"
| "py_item _ k = Inl TypeError"

text \<open>\<^verbatim>\<open>for x in v\<close>: the elements of a list, the keys of a dict, the characters of a string.\<close>

fun py_iter :: "json \<Rightarrow> exn + json list" where
  "py_iter (JArr xs) = Inr xs"
| "py_iter (JObj kvs) = Inr (map (\<lambda>kv. JStr (fst kv)) kvs)"
| "py_iter (JStr s) = Inr (map (\<lambda>c. JStr [c]) s)"
| "py_iter _ = Inl TypeError"

text \<open>\<^verbatim>\<open>v.items()\<close>.\<close>

fun py_items :: "json \<Rightarrow> exn + (string \<times> json) list" where
  "py_items (JObj kvs) = Inr kvs"
| "py_items _ = Inl AttributeError"

text \<open>
  \<^verbatim>\<open>f"{v}"\<close>: a string as it is, a number in decimal, \<^verbatim>\<open>True\<close>, \<^verbatim>\<open>False\<close>, \<^verbatim>\<open>None\<close>. The text
  Python prints for a list or a dict is the parameter \<open>other\<close>.
\<close>

fun py_format :: "(json \<Rightarrow> string) \<Rightarrow> json \<Rightarrow> string" where
  "py_format other (JStr s) = s"
| "py_format other (JInt i) = py_str i"
| "py_format other (JFloat t) = t"
| "py_format other (JBool b) = (if b then ''True'' else ''False'')"
| "py_format other JNull = ''None''"
| "py_format other v = other v"

subsection \<open>Steps 5 and 6: the insert commands\<close>

text \<open>
  The value of a property as it is embedded: \<^verbatim>\<open>if isinstance(prop_value, str):
  prop_value = prop_value.replace('"', '\\"')\<close>, then \<^verbatim>\<open>f"{prop_value}"\<close>.
\<close>

fun property_text :: "(json \<Rightarrow> string) \<Rightarrow> json \<Rightarrow> string" where
  "property_text other (JStr s) = escape_quotes s"
| "property_text other v = py_format other v"

text \<open>The four f-strings of the two loops.\<close>

definition insert_N_text :: "string \<Rightarrow> string \<Rightarrow> string" where
  \<open>insert_N_text i l = ''insert N('' @ i @ '', "'' @ l @ ''");''\<close>

definition insert_NP_text :: "string \<Rightarrow> string \<Rightarrow> string \<Rightarrow> string" where
  \<open>insert_NP_text i k v = ''insert NP('' @ i @ '', "'' @ k @ ''", "'' @ v @ ''");''\<close>

definition insert_E_text :: "string \<Rightarrow> string \<Rightarrow> string \<Rightarrow> string \<Rightarrow> string" where
  \<open>insert_E_text i f t l = ''insert E('' @ i @ '', '' @ f @ '', '' @ t @ '', "'' @ l @ ''");''\<close>

definition insert_EP_text :: "string \<Rightarrow> string \<Rightarrow> string \<Rightarrow> string" where
  \<open>insert_EP_text i k v = ''insert EP('' @ i @ '', "'' @ k @ ''", "'' @ v @ ''");''\<close>

text \<open>One turn of the node loop: the node, then its properties in the order of the dict.\<close>

definition dummy_node_steps :: "(json \<Rightarrow> string) \<Rightarrow> json \<Rightarrow> string step list" where
  "dummy_node_steps other node =
     (case py_item node ''id'' of
        Inl e \<Rightarrow> [Raise e]
      | Inr i \<Rightarrow>
          (case py_item node ''label'' of
             Inl e \<Rightarrow> [Raise e]
           | Inr l \<Rightarrow>
               Do (insert_N_text (py_format other i) (py_format other l))
               # (case py_item node ''properties'' of
                    Inl e \<Rightarrow> [Raise e]
                  | Inr props \<Rightarrow>
                      (case py_items props of
                         Inl e \<Rightarrow> [Raise e]
                       | Inr kvs \<Rightarrow>
                           map (\<lambda>kv. Do (insert_NP_text (py_format other i) (fst kv)
                                            (property_text other (snd kv)))) kvs))))"

text \<open>One turn of the edge loop.\<close>

definition dummy_edge_steps :: "(json \<Rightarrow> string) \<Rightarrow> json \<Rightarrow> string step list" where
  "dummy_edge_steps other e =
     (case py_item e ''id'' of
        Inl x \<Rightarrow> [Raise x]
      | Inr i \<Rightarrow>
          (case py_item e ''from'' of
             Inl x \<Rightarrow> [Raise x]
           | Inr f \<Rightarrow>
               (case py_item e ''to'' of
                  Inl x \<Rightarrow> [Raise x]
                | Inr t \<Rightarrow>
                    (case py_item e ''label'' of
                       Inl x \<Rightarrow> [Raise x]
                     | Inr l \<Rightarrow>
                         Do (insert_E_text (py_format other i) (py_format other f)
                               (py_format other t) (py_format other l))
                         # (case py_item e ''properties'' of
                              Inl x \<Rightarrow> [Raise x]
                            | Inr props \<Rightarrow>
                                (case py_items props of
                                   Inl x \<Rightarrow> [Raise x]
                                 | Inr kvs \<Rightarrow>
                                     map (\<lambda>kv. Do (insert_EP_text (py_format other i) (fst kv)
                                                      (property_text other (snd kv)))) kvs))))))"

text \<open>
  A loop over \<^verbatim>\<open>data[key]\<close>: the turns in order. Reading the list may raise: a missing key,
  or a value that has no length and no elements (\<^verbatim>\<open>len(data[key])\<close> is printed first, and
  raises \<^verbatim>\<open>TypeError\<close> for the same values as the loop).
\<close>

definition loop_over ::
  "json \<Rightarrow> string \<Rightarrow> (json \<Rightarrow> string step list) \<Rightarrow> string step list" where
  "loop_over data key body =
     (case py_item data key of
        Inl e \<Rightarrow> [Raise e]
      | Inr items \<Rightarrow>
          (case py_iter items of
             Inl e \<Rightarrow> [Raise e]
           | Inr xs \<Rightarrow> concat (map body xs)))"

definition social_network_view :: string where
  "social_network_view =
     ''CREATE virtual VIEW SocialNetworkView ON g (\<newline>  MATCH (p:Person)-[k:knows]->(p2:Person)\<newline>);''"

text \<open>\<^verbatim>\<open>requests.post(f"{API_URL}/execute", json={"command": cmd})\<close> for a command text.\<close>

definition command_request :: "string \<Rightarrow> string \<times> json" where
  "command_request cmd = (API_URL @ ''/execute'', JObj [(''command'', JStr cmd)])"

subsection \<open>The replies of the server\<close>

text \<open>
  What one \<^verbatim>\<open>requests.post\<close> gives: the call raises (\<open>Inl e\<close>), or it returns a response
  whose \<^verbatim>\<open>.json()\<close> raises (\<open>Inr (Inl e)\<close>) or decodes to a value (\<open>Inr (Inr v)\<close>). The
  server and the network are a parameter of the run: the reply to the \<open>k\<close>-th request
  posted.
\<close>

type_synonym reply = "exn + (exn + json)"

text \<open>What the script does once a response is there: go on, return, or raise.\<close>

datatype verdict = Continue | Return | Raises exn

text \<open>\<^verbatim>\<open>response.json().get('success')\<close>, tested for truth.\<close>

definition get_success :: "exn + json \<Rightarrow> exn + bool" where
  "get_success body =
     (case body of
        Inl e \<Rightarrow> Inl e
      | Inr v \<Rightarrow> (case py_get v ''success'' JNull of Inl e \<Rightarrow> Inl e | Inr s \<Rightarrow> Inr (truthy s)))"

text \<open>Steps 1 and 3: \<^verbatim>\<open>load_data\<close> returns when the server does not report success.\<close>

definition must_succeed :: "exn + json \<Rightarrow> verdict" where
  "must_succeed body =
     (case get_success body of
        Inl e \<Rightarrow> Raises e
      | Inr ok \<Rightarrow> if ok then Continue else Return)"

text \<open>
  Step 2: without success, \<^verbatim>\<open>message = response.json().get('message',
  response.json().get('error', ''))\<close> and then \<^verbatim>\<open>message.lower()\<close>, which only a string has.
\<close>

definition created :: "exn + json \<Rightarrow> verdict" where
  "created body =
     (case get_success body of
        Inl e \<Rightarrow> Raises e
      | Inr ok \<Rightarrow>
          if ok then Continue
          else
            (case body of
               Inl e \<Rightarrow> Raises e
             | Inr v \<Rightarrow>
                 (case py_get v ''error'' (JStr []) of
                    Inl e \<Rightarrow> Raises e
                  | Inr d \<Rightarrow>
                      (case py_get v ''message'' d of
                         Inl e \<Rightarrow> Raises e
                       | Inr (JStr m) \<Rightarrow> Continue
                       | Inr _ \<Rightarrow> Raises AttributeError))))"

text \<open>A schema request and the view: success is only printed.\<close>

definition reports :: "exn + json \<Rightarrow> verdict" where
  "reports body = (case get_success body of Inl e \<Rightarrow> Raises e | Inr ok \<Rightarrow> Continue)"

text \<open>An insert command: the response is not looked at.\<close>

definition ignored :: "exn + json \<Rightarrow> verdict" where
  "ignored body = Continue"

subsection \<open>The run\<close>

text \<open>
  The summary printed at the end reads \<^verbatim>\<open>data['summary']['node_types'].items()\<close> and
  \<^verbatim>\<open>data['summary']['edge_types'].items()\<close>: nothing is posted, a lookup may raise.
\<close>

definition summary_steps :: "json \<Rightarrow> 'c step list" where
  "summary_steps data =
     (case py_item data ''summary'' of
        Inl e \<Rightarrow> [Raise e]
      | Inr s \<Rightarrow>
          (case py_item s ''node_types'' of
             Inl e \<Rightarrow> [Raise e]
           | Inr nt \<Rightarrow>
               (case py_items nt of
                  Inl e \<Rightarrow> [Raise e]
                | Inr nkvs \<Rightarrow>
                    (case py_item s ''edge_types'' of
                       Inl e \<Rightarrow> [Raise e]
                     | Inr et \<Rightarrow>
                         (case py_items et of
                            Inl e \<Rightarrow> [Raise e]
                          | Inr ekvs \<Rightarrow> [])))))"

text \<open>
  The statements of \<^verbatim>\<open>load_data\<close> after the data file is read, in order: each request with
  what the script does with its response, and the exceptions of the script itself.
\<close>

definition dummy_script ::
  "(json \<Rightarrow> string) \<Rightarrow> json \<Rightarrow> ((string \<times> json) \<times> (exn + json \<Rightarrow> verdict)) step list" where
  "dummy_script other data =
     [Do ((API_URL @ ''/connect'', JObj [(''platform'', JStr ''pg'')]), must_succeed),
      Do ((API_URL @ ''/graph/create'', JObj [(''name'', JStr ''DummyGraph'')]), created),
      Do ((API_URL @ ''/graph/use'', JObj [(''name'', JStr ''DummyGraph'')]), must_succeed)]
     @ map (\<lambda>s. Do (schema_request_of s, reports)) schemas
     @ map (map_step (\<lambda>cmd. (command_request cmd, ignored)))
         (loop_over data ''nodes'' (dummy_node_steps other)
          @ loop_over data ''edges'' (dummy_edge_steps other))
     @ [Do (command_request social_network_view, reports)]
     @ summary_steps data"

text \<open>
  Running the statements against the replies: the \<open>k\<close>-th request is posted, then the
  call raises, or the script looks at the response and goes on, returns or raises.
\<close>

fun run ::
  "(nat \<Rightarrow> reply) \<Rightarrow> nat \<Rightarrow> ((string \<times> json) \<times> (exn + json \<Rightarrow> verdict)) step list
     \<Rightarrow> (string \<times> json) step list" where
  "run world k [] = []"
| "run world k (Raise e # rest) = [Raise e]"
| "run world k (Do (req, examine) # rest) =
     Do req
     # (case world k of
          Inl e \<Rightarrow> [Raise e]
        | Inr body \<Rightarrow>
            (case examine body of
               Continue \<Rightarrow> run world (Suc k) rest
             | Return \<Rightarrow> []
             | Raises e \<Rightarrow> [Raise e]))"

text \<open>
  The whole of \<^verbatim>\<open>load_data\<close>. It exits before any request when the health check fails or
  the data file is missing (\<open>None\<close>); reading the file may raise (\<open>Some (Inl e)\<close>).
\<close>

definition load_dummy_data ::
  "(json \<Rightarrow> string) \<Rightarrow> bool \<Rightarrow> (exn + json) option \<Rightarrow> (nat \<Rightarrow> reply)
     \<Rightarrow> (string \<times> json) step list" where
  "load_dummy_data other healthy data_file world =
     (if \<not> healthy then []
      else
        (case data_file of
           None \<Rightarrow> []
         | Some (Inl e) \<Rightarrow> [Raise e]
         | Some (Inr data) \<Rightarrow> run world 0 (dummy_script other data)))"

section \<open>Properties of the loader of the dummy graph\<close>













section \<open>Decimal numerals\<close>

lemma digit_char_is_digit: "d < 10 \<Longrightarrow> is_digit (digit_char d)"
  by (simp add: is_digit_def digit_char_def del: set_simps)

lemma digit_val_digit_char: "d < 10 \<Longrightarrow> digit_val (digit_char d) = d"
proof -
  assume "d < 10"
  then have "d \<in> {0, 1, 2, 3, 4, 5, 6, 7, 8, 9}"
    by auto
  then show ?thesis
    by (auto simp: digit_val_def digit_char_def)
qed

lemma str_nat_digits: "list_all is_digit (str_nat n)"
proof (induction n rule: str_nat.induct)
  case (1 n)
  show ?case
  proof (cases "n < 10")
    case True
    then show ?thesis
      by (simp add: str_nat.simps [of n] digit_char_is_digit)
  next
    case False
    with 1 show ?thesis
      by (simp add: str_nat.simps [of n] digit_char_is_digit)
  qed
qed

lemma str_nat_nonempty: "str_nat n \<noteq> []"
  by (subst str_nat.simps) simp

lemma read_nat_str_nat: "read_nat (str_nat n) = n"
proof (induction n rule: str_nat.induct)
  case (1 n)
  show ?case
  proof (cases "n < 10")
    case True
    then show ?thesis
      by (simp add: str_nat.simps [of n] read_nat_def digit_val_digit_char)
  next
    case False
    with 1 have "read_nat (str_nat (n div 10)) = n div 10"
      by simp
    with False show ?thesis
      by (simp add: str_nat.simps [of n] read_nat_def digit_val_digit_char)
  qed
qed

lemma is_digit_not_hash: "is_digit c \<Longrightarrow> c \<noteq> CHR ''#''"
  by (auto simp: is_digit_def)

lemma is_digit_not_space: "is_digit c \<Longrightarrow> \<not> is_space c"
  by (auto simp: is_digit_def is_space_def)

section \<open>Splitting\<close>

text \<open>Characters that cannot start the separator are copied to the current piece.\<close>

lemma split_from_skip:
  "list_all (\<lambda>c. c \<noteq> hd sep) ds \<Longrightarrow>
   split_from sep cur (ds @ rest) = split_from sep (cur @ ds) rest"
proof (induction ds arbitrary: cur)
  case Nil
  then show ?case by simp
next
  case (Cons d ds)
  then have "\<not> (sep \<noteq> [] \<and> startswith (d # ds @ rest) sep)"
    by (cases sep) (auto simp: startswith_def)
  then have "split_from sep cur ((d # ds) @ rest) = split_from sep (cur @ [d]) (ds @ rest)"
    by auto
  also have "\<dots> = split_from sep ((cur @ [d]) @ ds) rest"
    using Cons by simp
  finally show ?case by simp
qed

lemma split_ws_skip:
  "list_all (\<lambda>c. \<not> is_space c) ds \<Longrightarrow>
   split_ws_from cur (ds @ rest) = split_ws_from (cur @ ds) rest"
  by (induction ds arbitrary: cur) auto

lemma extract_count_result_info: "extract_count (result_info n ms k) = Inr (str_nat n)"
proof -
  have dig: "\<And>m. list_all (\<lambda>c. c \<noteq> hd ''#:'') (str_nat m)"
    using str_nat_digits is_digit_not_hash by (fastforce simp: list_all_iff)
  have nsp: "\<And>m. list_all (\<lambda>c. \<not> is_space c) (str_nat m)"
    using str_nat_digits is_digit_not_space by (fastforce simp: list_all_iff)
  let ?tail = "'' '' @ str_nat n @ '' etime['' @ str_nat ms @ ''] #ofRules: '' @ str_nat k"
  have a: "split_from ''#:'' cur (str_nat k) = [cur @ str_nat k]" for cur
    using split_from_skip [OF dig, of cur k "[]"] by simp
  have c: "split_from ''#:'' [] ?tail = [?tail]"
    by (simp add: split_from_skip [OF dig] startswith_def a)
  have d: "split_from ''#:'' [] (result_info n ms k) = [''query result '', ?tail]"
    using c by (simp add: result_info_def startswith_def)
  have e: "py_index (py_split_ws ?tail) 0 = Inr (str_nat n)"
    using str_nat_nonempty [of n]
    by (simp add: py_split_ws_def is_space_def split_ws_skip [OF nsp] py_index_def)
  show ?thesis
    using d e by (simp add: extract_count_def py_split_def py_index_def)
qed

section \<open>The count field of the result summary\<close>

text \<open>
  C3. For all natural numbers \<open>n\<close>, \<open>ms\<close> and \<open>k\<close>: when the response carries the summary
  \<^verbatim>\<open>query result #: <n> etime[<ms>] #ofRules: <k>\<close> under \<^verbatim>\<open>resultInfo\<close>, splitting it on
  \<^verbatim>\<open>#:\<close>, taking the second piece and its first whitespace-separated token raises
  nothing and yields the decimal text of \<open>n\<close>, which reads back as \<open>n\<close>: formatting
  followed by the extraction is a round trip on the count.
\<close>

theorem count_roundtrip:
  assumes "map_of kvs ''resultInfo'' = Some (JStr (result_info n ms k))"
  shows "count_text (JObj kvs) = Inr (str_nat n) \<and> read_nat (str_nat n) = n"
proof -
  from assms have "''resultInfo'' \<in> fst ` set kvs"
    by (metis domI dom_map_of_conv_image_fst)
  with assms show ?thesis
    by (simp add: count_text_def extract_count_result_info read_nat_str_nat)
qed

theorem count_roundtrip_witness:
  "map_of [(''success'', JBool True), (''resultInfo'', JStr (result_info 120 35 2))] ''resultInfo''
     = Some (JStr (result_info 120 35 2))
   \<and> count_text (JObj [(''success'', JBool True), (''resultInfo'', JStr (result_info 120 35 2))])
     = Inr ''120''
   \<and> result_info 120 35 2 = ''query result #: 120 etime[35] #ofRules: 2''
   \<and> read_nat ''120'' = 120"
proof -
  have s: "str_nat 120 = ''120''" "str_nat 35 = ''35''" "str_nat 2 = ''2''"
    by (simp_all add: str_nat.simps digit_char_def)
  have h: "map_of [(''success'', JBool True), (''resultInfo'', JStr (result_info 120 35 2))]
             ''resultInfo'' = Some (JStr (result_info 120 35 2))"
    by simp
  show ?thesis
    using count_roundtrip [OF h] h by (simp add: s result_info_def)
qed

section \<open>The client: what is sent\<close>

lemma request_post:
  "request self ''POST'' endpoint data w =
     (case session_post (session self) (base_url self @ endpoint) data (timeout self) w of
        (sent, w') \<Rightarrow> (catch_request_exception (response_body sent), w'))"
  by (simp add: request_def session_call_def)

text \<open>
  C2. For every id, label, endpoints, property name and value: \<^verbatim>\<open>insert_node\<close> posts to
  \<^verbatim>\<open>/data/insert\<close> the fact of relation \<^verbatim>\<open>N\<close> with the ordered values id, label;
  \<^verbatim>\<open>insert_edge\<close> the fact of \<^verbatim>\<open>E\<close> with id, from, to, label; \<^verbatim>\<open>insert_node_property\<close> the
  fact of \<^verbatim>\<open>NP\<close> with id, key, value; \<^verbatim>\<open>insert_edge_property\<close> the fact of \<^verbatim>\<open>EP\<close> with id,
  key, value. Each list of values fits the signature the specification gives for its
  relation, in name, arity and order.
\<close>

theorem insert_methods_post_facts:
  fixes self :: "'w PGViewClient"
  shows
    "insert_node self node_id label
       = request self ''POST'' ''/data/insert''
           (Some (insertFact Rel_N [IdValue node_id, TextValue label]))
     \<and> fits_signature Rel_N [IdValue node_id, TextValue label]
     \<and> insert_edge self eid from_id to_id label
       = request self ''POST'' ''/data/insert''
           (Some (insertFact Rel_E [IdValue eid, IdValue from_id, IdValue to_id, TextValue label]))
     \<and> fits_signature Rel_E [IdValue eid, IdValue from_id, IdValue to_id, TextValue label]
     \<and> insert_node_property self node_id prop_name prop_value
       = request self ''POST'' ''/data/insert''
           (Some (insertFact Rel_NP [IdValue node_id, TextValue prop_name, TextValue prop_value]))
     \<and> fits_signature Rel_NP [IdValue node_id, TextValue prop_name, TextValue prop_value]
     \<and> insert_edge_property self eid prop_name prop_value
       = request self ''POST'' ''/data/insert''
           (Some (insertFact Rel_EP [IdValue eid, TextValue prop_name, TextValue prop_value]))
     \<and> fits_signature Rel_EP [IdValue eid, TextValue prop_name, TextValue prop_value]"
  by (simp add: insert_node_def insert_edge_def insert_node_property_def
      insert_edge_property_def insertFact_def fits_signature_def dquote_def)

text \<open>On a session that records what it receives, the posted body can be read off.\<close>

theorem insert_methods_post_facts_witness:
  "snd (insert_edge local_client 10 1 2 ''Knows'' [])
     = [(''http://localhost:7070/data/insert'',
         Some (JObj [(''relName'', JStr ''E''),
                     (''args'', JStr [CHR ''1'', CHR ''0'', CHR '','', CHR ''1'', CHR '','',
                                      CHR ''2'', CHR '','', CHR 0x22, CHR ''K'', CHR ''n'',
                                      CHR ''o'', CHR ''w'', CHR ''s'', CHR 0x22])]))]"
proof -
  have "insert_edge local_client 10 1 2 ''Knows''
          = request local_client ''POST'' ''/data/insert''
              (Some (insertFact Rel_E [IdValue 10, IdValue 1, IdValue 2, TextValue ''Knows'']))"
    using insert_methods_post_facts [where self = local_client and eid = 10
        and from_id = 1 and to_id = 2 and label = "''Knows''"]
    by blast
  then show ?thesis
    by (simp add: request_post local_client_def PGViewClient_init_def rstrip_char_def
        existing_graph_session_def insertFact_def py_str_def str_nat.simps digit_char_def
        dquote_def)
qed

section \<open>The client: transport failures\<close>






text \<open>A method other than the three raises a \<^verbatim>\<open>ValueError\<close>, which is not caught.\<close>

lemma request_unsupported_method:
  "request self ''PUT'' endpoint data w = (Inl (ValueError ''Unsupported HTTP method: PUT''), w)"
  by (simp add: request_def session_call_def response_body_def)




section \<open>The client: \<^verbatim>\<open>setup_graph\<close>\<close>

text \<open>
  C9. When the three calls return dicts, \<^verbatim>\<open>setup_graph(graph_name, platform)\<close> returns a
  value and raises nothing; that value is \<^verbatim>\<open>True\<close> if and only if the response of
  \<^verbatim>\<open>connect(platform)\<close> reports success (its \<^verbatim>\<open>success\<close> field passes the test of the code)
  and the \<^verbatim>\<open>success\<close> field of the response of \<^verbatim>\<open>use_graph(graph_name)\<close> is \<^verbatim>\<open>True\<close>; read
  as a truth value, it holds if and only if both fields do. The response \<open>r2\<close> of the
  intermediate \<^verbatim>\<open>create_graph(graph_name)\<close> is arbitrary and has no part in the result, so
  a graph that exists already does not make \<^verbatim>\<open>setup_graph\<close> return \<^verbatim>\<open>False\<close>.
\<close>

theorem setup_graph_success:
  fixes self :: "'w PGViewClient"
  assumes c: "connect self platform w = (Inr (JObj r1), w1)"
    and g: "create_graph self graph_name w1 = (Inr r2, w2)"
    and u: "use_graph self graph_name w2 = (Inr (JObj r3), w3)"
  shows "\<exists>v w'. setup_graph self graph_name platform w = (Inr v, w')
           \<and> (v = JBool True \<longleftrightarrow>
                truthy (success_field r1 JNull) \<and> success_field r3 (JBool False) = JBool True)
           \<and> (truthy v \<longleftrightarrow>
                truthy (success_field r1 JNull) \<and> truthy (success_field r3 (JBool False)))"
proof (cases "truthy (success_field r1 JNull)")
  case True
  with c g u have "setup_graph self graph_name platform w
      = (Inr (success_field r3 (JBool False)), w3)"
    by (simp add: setup_graph_def success_field_def)
  with True show ?thesis by simp
next
  case False
  with c have "setup_graph self graph_name platform w = (Inr (JBool False), w1)"
    by (simp add: setup_graph_def success_field_def)
  with False show ?thesis by simp
qed

lemma local_connect:
  "connect local_client ''pg'' [] = (Inr (JObj [(''success'', JBool True)]),
     [(''http://localhost:7070/connect'', Some (JObj [(''platform'', JStr ''pg'')]))])"
  by (simp add: connect_def request_def session_call_def local_client_def PGViewClient_init_def
      existing_graph_session_def ok_response_def response_body_def raise_for_status_def
      rstrip_char_def)

theorem setup_graph_success_witness:
  "connect local_client ''pg'' []
     = (Inr (JObj [(''success'', JBool True)]),
        [(''http://localhost:7070/connect'', Some (JObj [(''platform'', JStr ''pg'')]))])
   \<and> create_graph local_client ''G''
        [(''http://localhost:7070/connect'', Some (JObj [(''platform'', JStr ''pg'')]))]
     = (Inr (JObj [(''success'', JBool False), (''error'', JStr ''graph already exists'')]),
        [(''http://localhost:7070/connect'', Some (JObj [(''platform'', JStr ''pg'')])),
         (''http://localhost:7070/graph/create'', Some (JObj [(''name'', JStr ''G'')]))])
   \<and> setup_graph local_client ''G'' ''pg'' []
     = (Inr (JBool True),
        [(''http://localhost:7070/connect'', Some (JObj [(''platform'', JStr ''pg'')])),
         (''http://localhost:7070/graph/create'', Some (JObj [(''name'', JStr ''G'')])),
         (''http://localhost:7070/graph/use'', Some (JObj [(''name'', JStr ''G'')]))])"
proof -
  let ?w1 = "[(''http://localhost:7070/connect'', Some (JObj [(''platform'', JStr ''pg'')]))]"
  let ?w2 = "?w1 @ [(''http://localhost:7070/graph/create'', Some (JObj [(''name'', JStr ''G'')]))]"
  let ?w3 = "?w2 @ [(''http://localhost:7070/graph/use'', Some (JObj [(''name'', JStr ''G'')]))]"
  have c: "connect local_client ''pg'' [] = (Inr (JObj [(''success'', JBool True)]), ?w1)"
    by (rule local_connect)
  have g: "create_graph local_client ''G'' ?w1
      = (Inr (JObj [(''success'', JBool False), (''error'', JStr ''graph already exists'')]), ?w2)"
    by (simp add: create_graph_def request_def session_call_def local_client_def
        PGViewClient_init_def existing_graph_session_def ok_response_def response_body_def
        raise_for_status_def rstrip_char_def)
  have u: "use_graph local_client ''G'' ?w2 = (Inr (JObj [(''success'', JBool True)]), ?w3)"
    by (simp add: use_graph_def request_def session_call_def local_client_def
        PGViewClient_init_def existing_graph_session_def ok_response_def response_body_def
        raise_for_status_def rstrip_char_def)
  from setup_graph_success [OF c g u]
  obtain v w' where r: "setup_graph local_client ''G'' ''pg'' [] = (Inr v, w')"
    and t: "v = JBool True \<longleftrightarrow> truthy (success_field [(''success'', JBool True)] JNull)
              \<and> success_field [(''success'', JBool True)] (JBool False) = JBool True"
    by blast
  from t have "v = JBool True" by (simp add: success_field_def)
  moreover have "w' = ?w3"
    using r c g u by (simp add: setup_graph_def)
  ultimately show ?thesis using r c g by simp
qed

section \<open>The client: \<^verbatim>\<open>create_simple_view\<close>\<close>






text \<open>The grammar accepts the definitions that the example script submits.\<close>

lemma example_views_conform:
  "parse_view_definition view1 \<noteq> None \<and> parse_view_definition view4 \<noteq> None"
  by (simp add: view1_def view4_def parse_view_definition_def py_split_ws_def is_space_def
      strip_optional_def parse_view_body_def parse_where_def parse_construct_def
      clause_keyword_def)

section \<open>The generator: loops and what they maintain\<close>

lemma fold_invariant:
  assumes "P s" and "\<And>x s. x \<in> set xs \<Longrightarrow> P s \<Longrightarrow> P (f x s)"
  shows "P (fold f xs s)"
  using assms by (induction xs arbitrary: s) auto

lemma randint_range: "a \<le> b \<Longrightarrow> a \<le> fst (randint a b g) \<and> fst (randint a b g) \<le> b"
proof -
  assume "a \<le> b"
  then have "0 < nat (b - a + 1)" by simp
  then have "source g (pos g) mod nat (b - a + 1) < nat (b - a + 1)"
    by (rule mod_less_divisor)
  then show ?thesis
    by (auto simp: randint_def next_raw_def)
qed

subsection \<open>The node loops\<close>

lemma add_node_other [simp]:
  "edges (add_node build i s) = edges s" "edge_id (add_node build i s) = edge_id s"
  by (simp_all add: add_node_def split: prod.splits)

lemma fold_add_node_other [simp]:
  "edges (fold (add_node build) xs s) = edges s"
  "edge_id (fold (add_node build) xs s) = edge_id s"
  by (induction xs arbitrary: s) simp_all

lemma fold_add_node_nodes:
  assumes "\<And>i g. n_id (fst (build i g)) = i \<and> n_label (fst (build i g)) = l"
  shows "map (\<lambda>n. (n_id n, n_label n)) (nodes (fold (add_node build) xs s))
         = map (\<lambda>n. (n_id n, n_label n)) (nodes s) @ map (\<lambda>i. (i, l)) xs"
proof (induction xs arbitrary: s)
  case Nil
  show ?case by simp
next
  case (Cons x xs)
  have "map (\<lambda>n. (n_id n, n_label n)) (nodes (add_node build x s))
        = map (\<lambda>n. (n_id n, n_label n)) (nodes s) @ [(x, l)]"
    using assms [of x "rng_state s"]
    by (cases "build x (rng_state s)") (simp add: add_node_def)
  with Cons [of "add_node build x s"] show ?case by simp
qed

lemma person_node_id: "n_id (fst (person_node i g)) = i \<and> n_label (fst (person_node i g)) = ''Person''"
  by (simp add: person_node_def split: prod.splits)

lemma company_node_id:
  "n_id (fst (company_node i g)) = i \<and> n_label (fst (company_node i g)) = ''Company''"
  by (simp add: company_node_def split: prod.splits)

lemma product_node_id:
  "n_id (fst (product_node i g)) = i \<and> n_label (fst (product_node i g)) = ''Product''"
  by (simp add: product_node_def split: prod.splits)

lemma generate_nodes_other [simp]:
  "edges (generate_nodes s) = edges s" "edge_id (generate_nodes s) = edge_id s"
  by (simp_all add: generate_nodes_def Let_def)

lemma generate_nodes_nodes:
  "map (\<lambda>n. (n_id n, n_label n)) (nodes (generate_nodes s))
   = map (\<lambda>n. (n_id n, n_label n)) (nodes s)
     @ map (\<lambda>i. (i, ''Person'')) [1..NUM_PERSONS]
     @ map (\<lambda>i. (i, ''Company'')) [NUM_PERSONS + 1..NUM_PERSONS + NUM_COMPANIES]
     @ map (\<lambda>i. (i, ''Product'')) [NUM_PERSONS + NUM_COMPANIES + 1..TOTAL_NODES]"
  by (simp add: generate_nodes_def Let_def fold_add_node_nodes [OF person_node_id]
      fold_add_node_nodes [OF company_node_id] fold_add_node_nodes [OF product_node_id])

lemma node_ranges:
  "[1..NUM_PERSONS] @ [NUM_PERSONS + 1..NUM_PERSONS + NUM_COMPANIES]
     @ [NUM_PERSONS + NUM_COMPANIES + 1..TOTAL_NODES] = [1..TOTAL_NODES]"
proof -
  have "[1..TOTAL_NODES] = [1..NUM_PERSONS] @ [NUM_PERSONS + 1..TOTAL_NODES]"
    using upto_split2 [of 1 NUM_PERSONS TOTAL_NODES]
    by (simp add: NUM_PERSONS_def NUM_COMPANIES_def NUM_PRODUCTS_def TOTAL_NODES_def
        del: upto_rec_numeral)
  moreover have "[NUM_PERSONS + 1..TOTAL_NODES]
      = [NUM_PERSONS + 1..NUM_PERSONS + NUM_COMPANIES]
        @ [NUM_PERSONS + NUM_COMPANIES + 1..TOTAL_NODES]"
    using upto_split2 [of "NUM_PERSONS + 1" "NUM_PERSONS + NUM_COMPANIES" TOTAL_NODES]
    by (simp add: NUM_PERSONS_def NUM_COMPANIES_def NUM_PRODUCTS_def TOTAL_NODES_def
        del: upto_rec_numeral)
  ultimately show ?thesis by simp
qed

lemma generate_nodes_ids:
  "map n_id (nodes (generate_nodes s)) = map n_id (nodes s) @ [1..TOTAL_NODES]"
proof -
  have "map n_id (nodes (generate_nodes s))
        = map fst (map (\<lambda>n. (n_id n, n_label n)) (nodes (generate_nodes s)))"
    by (simp add: comp_def)
  also have "\<dots> = map n_id (nodes s) @ [1..NUM_PERSONS]
      @ [NUM_PERSONS + 1..NUM_PERSONS + NUM_COMPANIES]
      @ [NUM_PERSONS + NUM_COMPANIES + 1..TOTAL_NODES]"
    unfolding generate_nodes_nodes by (simp add: comp_def)
  finally show ?thesis by (simp only: node_ranges)
qed

subsection \<open>The edge loops\<close>

lemma randint_in:
  "randint a b g = (v, g') \<Longrightarrow> a \<le> b \<Longrightarrow> a \<le> v \<and> v \<le> b"
  using randint_range [of a b g] by simp

text \<open>What the edge loops maintain: consecutive ids, endpoints in range, nodes untouched.\<close>

lemma edges_inv_rng [simp]:
  "edges_inv ns (s\<lparr>rng_state := g\<rparr>) = edges_inv ns s"
  by (simp add: edges_inv_def ids_consecutive_def)

lemma append_edge_inv:
  assumes "edges_inv ns s"
    and "endpoints_ok \<lparr>e_id = edge_id s, e_from = a, e_to = b, e_label = l, e_properties = p\<rparr>"
  shows "edges_inv ns (append_edge a b l p s)"
  using assms by (simp add: edges_inv_def ids_consecutive_def append_edge_def)

lemma works_at_step_inv:
  assumes "edges_inv ns s" and "1 \<le> person_id" and "person_id \<le> NUM_PERSONS"
  shows "edges_inv ns (works_at_step person_id s)"
  using assms unfolding works_at_step_def
  by (auto split: prod.splits intro!: append_edge_inv dest!: randint_in
      simp: endpoints_ok_def NUM_PERSONS_def NUM_COMPANIES_def)

lemma knows_step_inv:
  assumes "edges_inv ns s" and "1 \<le> person_id" and "person_id \<le> NUM_PERSONS"
  shows "edges_inv ns (knows_step person_id s)"
  using assms unfolding knows_step_def
  by (auto split: prod.splits intro!: append_edge_inv dest!: randint_in
      simp: endpoints_ok_def NUM_PERSONS_def)

lemma bought_step_inv:
  assumes "edges_inv ns s" and "1 \<le> person_id" and "person_id \<le> NUM_PERSONS"
  shows "edges_inv ns (bought_step person_id s)"
  using assms unfolding bought_step_def
  by (auto split: prod.splits intro!: append_edge_inv dest!: randint_in
      simp: endpoints_ok_def NUM_PERSONS_def NUM_COMPANIES_def NUM_PRODUCTS_def TOTAL_NODES_def)

lemma produces_step_inv:
  assumes "edges_inv ns s" and "NUM_PERSONS + 1 \<le> company_id"
    and "company_id \<le> NUM_PERSONS + NUM_COMPANIES"
  shows "edges_inv ns (produces_step company_id s)"
  using assms unfolding produces_step_def
  by (auto split: prod.splits intro!: append_edge_inv dest!: randint_in
      simp: endpoints_ok_def NUM_PERSONS_def NUM_COMPANIES_def NUM_PRODUCTS_def TOTAL_NODES_def)

lemma repeat_step_inv:
  assumes "edges_inv ns s" and "\<And>s. edges_inv ns s \<Longrightarrow> edges_inv ns (body subject s)"
  shows "edges_inv ns (repeat_step lo hi body subject s)"
  unfolding repeat_step_def using assms
  by (auto split: prod.splits intro!: fold_invariant [where P = "edges_inv ns"])

lemma generate_edges_inv:
  assumes "edges s = []"
  shows "edges_inv (nodes s) (generate_edges s)"
proof -
  let ?P = "edges_inv (nodes s)"
  have 0: "?P (s\<lparr>edge_id := 1000\<rparr>)"
    using assms by (simp add: edges_inv_def ids_consecutive_def)
  have 1: "?P (fold works_at_step [1..NUM_PERSONS] (s\<lparr>edge_id := 1000\<rparr>))"
    using 0 by (rule fold_invariant) (simp add: works_at_step_inv)
  have 2: "?P (fold (repeat_step 2 10 knows_step) [1..NUM_PERSONS]
             (fold works_at_step [1..NUM_PERSONS] (s\<lparr>edge_id := 1000\<rparr>)))"
    using 1 by (rule fold_invariant) (simp add: repeat_step_inv knows_step_inv)
  have 3: "?P (fold (repeat_step 1 5 bought_step) [1..NUM_PERSONS]
             (fold (repeat_step 2 10 knows_step) [1..NUM_PERSONS]
               (fold works_at_step [1..NUM_PERSONS] (s\<lparr>edge_id := 1000\<rparr>))))"
    using 2 by (rule fold_invariant) (simp add: repeat_step_inv bought_step_inv)
  show ?thesis
    unfolding generate_edges_def Let_def
    using 3 by (rule fold_invariant) (simp add: repeat_step_inv produces_step_inv)
qed

lemma generate_inv:
  "edges_inv (nodes (generate_nodes \<lparr>rng_state = g, nodes = [], edges = [], edge_id = 0\<rparr>))
     (generate_dummy_data g)"
  unfolding generate_dummy_data_def by (rule generate_edges_inv) simp

subsection \<open>Labels of the generated nodes\<close>

lemma map_of_const: "map_of (map (\<lambda>i. (i, l)) xs) i = (if i \<in> set xs then Some l else None)"
  by (induction xs) auto

lemma generated_nodes_eq:
  "nodes (generate_dummy_data g)
   = nodes (generate_nodes \<lparr>rng_state = g, nodes = [], edges = [], edge_id = 0\<rparr>)"
  using generate_inv [of g] by (simp add: edges_inv_def)

lemma generated_labels:
  "label_of_node (nodes (generate_dummy_data g)) i =
     (if 1 \<le> i \<and> i \<le> 300 then Some ''Person''
      else if 301 \<le> i \<and> i \<le> 400 then Some ''Company''
      else if 401 \<le> i \<and> i \<le> 500 then Some ''Product'' else None)"
  unfolding label_of_node_def generated_nodes_eq generate_nodes_nodes
  by (simp add: map_of_const map_add_def NUM_PERSONS_def NUM_COMPANIES_def NUM_PRODUCTS_def
      TOTAL_NODES_def del: upto_rec_numeral)

lemma generated_node_ids: "map n_id (nodes (generate_dummy_data g)) = [1..TOTAL_NODES]"
  unfolding generated_nodes_eq by (simp add: generate_nodes_ids)

lemma TOTAL_NODES_500: "TOTAL_NODES = 500"
  by (simp add: NUM_PERSONS_def NUM_COMPANIES_def NUM_PRODUCTS_def TOTAL_NODES_def)

subsection \<open>A run on the generator that draws 0 every time\<close>

lemma source_next [simp]: "source (snd (next_raw g)) = source g"
  by (simp add: next_raw_def)

lemma source_draws [simp]:
  "source (snd (randint a b g)) = source g"
  "source (snd (choice xs g)) = source g"
  "source (snd (random_below num den g)) = source g"
  "source (snd (uniform_rounded lo hi places g)) = source g"
  by (simp_all add: randint_def choice_def random_below_def uniform_rounded_def next_raw_def)

lemma source_builders:
  "source (snd (person_node i g)) = source g"
  "source (snd (company_node i g)) = source g"
  "source (snd (product_node i g)) = source g"
  by (simp_all add: person_node_def company_node_def product_node_def randint_def choice_def
      uniform_rounded_def next_raw_def)

lemma source_fold_add_node:
  assumes "\<And>i g. source (snd (build i g)) = source g"
  shows "source (rng_state (fold (add_node build) xs s)) = source (rng_state s)"
proof (induction xs arbitrary: s)
  case Nil
  show ?case by simp
next
  case (Cons x xs)
  have "source (rng_state (add_node build x s)) = source (rng_state s)"
    using assms [of x "rng_state s"] by (cases "build x (rng_state s)") (simp add: add_node_def)
  with Cons [of "add_node build x s"] show ?case by simp
qed

lemma source_generate_nodes:
  "source (rng_state (generate_nodes s)) = source (rng_state s)"
  by (simp add: generate_nodes_def Let_def source_fold_add_node source_builders)

text \<open>The loops only append to the list of edges.\<close>

lemma fold_keeps_edges:
  assumes "\<And>x s. set (edges s) \<subseteq> set (edges (f x s))"
  shows "set (edges s) \<subseteq> set (edges (fold f xs s))"
proof (induction xs arbitrary: s)
  case Nil
  show ?case by simp
next
  case (Cons x xs)
  from assms [of s x] Cons [of "f x s"] show ?case by auto
qed

lemma steps_keep_edges:
  "set (edges s) \<subseteq> set (edges (works_at_step i s))"
  "set (edges s) \<subseteq> set (edges (knows_step i s))"
  "set (edges s) \<subseteq> set (edges (bought_step i s))"
  "set (edges s) \<subseteq> set (edges (produces_step i s))"
  by (auto simp: works_at_step_def knows_step_def bought_step_def produces_step_def
      append_edge_def split: prod.splits)

lemma repeat_step_keeps_edges:
  assumes "\<And>s. set (edges s) \<subseteq> set (edges (body subject s))"
  shows "set (edges s) \<subseteq> set (edges (repeat_step lo hi body subject s))"
proof -
  obtain n g1 where r: "randint lo hi (rng_state s) = (n, g1)"
    by (cases "randint lo hi (rng_state s)")
  have "set (edges (s\<lparr>rng_state := g1\<rparr>))
        \<subseteq> set (edges (fold (\<lambda>_. body subject) [0..<nat n] (s\<lparr>rng_state := g1\<rparr>)))"
    by (rule fold_keeps_edges) (rule assms)
  with r show ?thesis
    by (simp add: repeat_step_def)
qed

lemma works_at_first:
  assumes "source (rng_state s) = (\<lambda>_. 0)" and "edges s = []" and "edge_id s = 1000"
  shows "edges (works_at_step 1 s) = [first_edge]"
  using assms
  by (simp add: works_at_step_def random_below_def randint_def choice_def next_raw_def
      append_edge_def first_edge_def departments_def NUM_PERSONS_def NUM_COMPANIES_def)

lemma first_edge_generated: "first_edge \<in> set (edges (generate_dummy_data zero_rng))"
proof -
  let ?s0 = "(generate_nodes \<lparr>rng_state = zero_rng, nodes = [], edges = [], edge_id = 0\<rparr>)
               \<lparr>edge_id := 1000\<rparr>"
  let ?s1 = "fold works_at_step [1..NUM_PERSONS] ?s0"
  have "source (rng_state ?s0) = (\<lambda>_. 0)"
    by (simp add: source_generate_nodes zero_rng_def)
  then have "edges (works_at_step 1 ?s0) = [first_edge]"
    by (rule works_at_first) simp_all
  moreover have "[1..NUM_PERSONS] = 1 # [2..NUM_PERSONS]"
    by (subst upto_rec1) (simp_all add: NUM_PERSONS_def del: upto_rec_numeral)
  ultimately have "first_edge \<in> set (edges ?s1)"
    using fold_keeps_edges [of works_at_step "works_at_step 1 ?s0" "[2..NUM_PERSONS]",
        OF steps_keep_edges(1)]
    by auto
  then have "first_edge \<in> set (edges
      (fold (repeat_step 2 10 knows_step) [1..NUM_PERSONS] ?s1))"
    using fold_keeps_edges [of "repeat_step 2 10 knows_step" ?s1 "[1..NUM_PERSONS]",
        OF repeat_step_keeps_edges, OF steps_keep_edges(2)]
    by blast
  then have "first_edge \<in> set (edges
      (fold (repeat_step 1 5 bought_step) [1..NUM_PERSONS]
        (fold (repeat_step 2 10 knows_step) [1..NUM_PERSONS] ?s1)))"
    using fold_keeps_edges [of "repeat_step 1 5 bought_step" _ "[1..NUM_PERSONS]",
        OF repeat_step_keeps_edges, OF steps_keep_edges(3)]
    by blast
  then have "first_edge \<in> set (edges
      (fold (repeat_step 1 5 produces_step) [NUM_PERSONS + 1..NUM_PERSONS + NUM_COMPANIES]
        (fold (repeat_step 1 5 bought_step) [1..NUM_PERSONS]
          (fold (repeat_step 2 10 knows_step) [1..NUM_PERSONS] ?s1))))"
    using fold_keeps_edges [of "repeat_step 1 5 produces_step" _
        "[NUM_PERSONS + 1..NUM_PERSONS + NUM_COMPANIES]",
        OF repeat_step_keeps_edges, OF steps_keep_edges(4)]
    by blast
  then show ?thesis
    by (simp add: generate_dummy_data_def generate_edges_def Let_def)
qed

section \<open>The generated graph against the declared schema\<close>

text \<open>
  C5. Every edge that \<^verbatim>\<open>generate_dummy_data\<close> produces, whatever the random draws, has
  endpoints in the ranges of its kind: a \<^verbatim>\<open>works_at\<close> edge goes from 1..300 to 301..400, a
  \<^verbatim>\<open>knows\<close> edge from 1..300 to 1..300, a \<^verbatim>\<open>bought\<close> edge from 1..300 to 401..500, a
  \<^verbatim>\<open>produces\<close> edge from 301..400 to 401..500. Its label is declared in the edge schema of
  \<^verbatim>\<open>load_dummy_data\<close>, and the generated nodes with the ids of its endpoints carry the
  endpoint labels that the schema declares for it.
\<close>

theorem generated_edges_fit_schema:
  assumes "e \<in> set (edges (generate_dummy_data g))"
  shows "(e_label e = ''works_at'' \<longrightarrow>
            e_from e \<in> {1..300} \<and> e_to e \<in> {301..400})
       \<and> (e_label e = ''knows'' \<longrightarrow>
            e_from e \<in> {1..300} \<and> e_to e \<in> {1..300})
       \<and> (e_label e = ''bought'' \<longrightarrow>
            e_from e \<in> {1..300} \<and> e_to e \<in> {401..500})
       \<and> (e_label e = ''produces'' \<longrightarrow>
            e_from e \<in> {301..400} \<and> e_to e \<in> {401..500})
       \<and> (\<exists>from_label to_label.
            EdgeSchema (e_label e) from_label to_label \<in> set schemas
            \<and> label_of_node (nodes (generate_dummy_data g)) (e_from e) = Some from_label
            \<and> label_of_node (nodes (generate_dummy_data g)) (e_to e) = Some to_label)"
proof -
  from generate_inv [of g] have "list_all endpoints_ok (edges (generate_dummy_data g))"
    by (simp add: edges_inv_def)
  with assms have ok: "endpoints_ok e"
    by (simp add: list_all_iff)
  then show ?thesis
    unfolding endpoints_ok_def
    by (elim disjE conjE) (simp_all add: generated_labels schemas_def)
qed

theorem generated_edges_fit_schema_witness:
  "first_edge \<in> set (edges (generate_dummy_data zero_rng))
   \<and> e_label first_edge = ''works_at''
   \<and> e_from first_edge = 1 \<and> e_to first_edge = 301
   \<and> EdgeSchema ''works_at'' ''Person'' ''Company'' \<in> set schemas
   \<and> label_of_node (nodes (generate_dummy_data zero_rng)) 1 = Some ''Person''
   \<and> label_of_node (nodes (generate_dummy_data zero_rng)) 301 = Some ''Company''"
proof -
  from generated_edges_fit_schema [OF first_edge_generated]
  obtain from_label to_label where
    s: "EdgeSchema (e_label first_edge) from_label to_label \<in> set schemas"
    and f: "label_of_node (nodes (generate_dummy_data zero_rng)) (e_from first_edge)
            = Some from_label"
    and t: "label_of_node (nodes (generate_dummy_data zero_rng)) (e_to first_edge)
            = Some to_label"
    by blast
  from s have "from_label = ''Person'' \<and> to_label = ''Company''"
    by (simp add: schemas_def first_edge_def)
  with s f t first_edge_generated show ?thesis
    by (simp add: first_edge_def)
qed

section \<open>Ids of the generated graph\<close>

text \<open>
  C7. In every dataset that \<^verbatim>\<open>generate_dummy_data\<close> produces, the node ids are pairwise
  distinct and are exactly the integers 1..500; the edge ids are the consecutive integers
  from 1000, one per emitted edge in the order of emission, hence pairwise distinct; and
  no node id is an edge id.
\<close>

theorem generated_ids_unique:
  "distinct (map n_id (nodes (generate_dummy_data g)))
   \<and> set (map n_id (nodes (generate_dummy_data g))) = {1..500}
   \<and> map e_id (edges (generate_dummy_data g))
       = map (\<lambda>k. 1000 + int k) [0..<length (edges (generate_dummy_data g))]
   \<and> distinct (map e_id (edges (generate_dummy_data g)))
   \<and> set (map n_id (nodes (generate_dummy_data g)))
       \<inter> set (map e_id (edges (generate_dummy_data g))) = {}"
proof -
  let ?ns = "map n_id (nodes (generate_dummy_data g))"
  let ?es = "map e_id (edges (generate_dummy_data g))"
  have n: "?ns = [1..TOTAL_NODES]"
    by (rule generated_node_ids)
  have e: "?es = map (\<lambda>k. 1000 + int k) [0..<length (edges (generate_dummy_data g))]"
    using generate_inv [of g] by (simp add: edges_inv_def ids_consecutive_def)
  have d1: "distinct ?ns"
    unfolding n by simp
  have s1: "set ?ns = {1..500}"
    unfolding n by (simp add: TOTAL_NODES_500)
  have d2: "distinct ?es"
    by (subst e) (simp add: distinct_map inj_on_def)
  have "\<forall>x \<in> set ?es. 1000 \<le> x"
    by (subst e) auto
  with s1 have "set ?ns \<inter> set ?es = {}"
    by fastforce
  with d1 s1 e d2 show ?thesis
    by blast
qed

theorem generated_ids_unique_witness:
  "1000 \<in> set (map e_id (edges (generate_dummy_data zero_rng)))
   \<and> 1000 \<notin> set (map n_id (nodes (generate_dummy_data zero_rng)))
   \<and> 500 \<in> set (map n_id (nodes (generate_dummy_data zero_rng)))"
proof -
  have "e_id first_edge \<in> e_id ` set (edges (generate_dummy_data zero_rng))"
    using first_edge_generated by (rule imageI)
  then have "1000 \<in> set (map e_id (edges (generate_dummy_data zero_rng)))"
    by (simp add: first_edge_def)
  with generated_ids_unique [of zero_rng] show ?thesis
    by auto
qed

section \<open>The MovieLens loader: mappings and steps\<close>

subsection \<open>The id mappings\<close>

lemma map_ids_keeps:
  "map_of id_map k \<noteq> None \<Longrightarrow> map_of (fst (map_ids keys (id_map, n))) k \<noteq> None"
proof (induction keys arbitrary: id_map n)
  case Nil
  then show ?case by (simp add: map_ids_def)
next
  case (Cons x xs)
  have "map_of (AList.update x n id_map) k \<noteq> None"
    using Cons.prems by (simp add: update_conv')
  from Cons.IH [OF this, of "n + 1"] show ?case
    by (simp add: map_ids_def)
qed

lemma map_ids_defined:
  "k \<in> set keys \<Longrightarrow> map_of (fst (map_ids keys (id_map, n))) k \<noteq> None"
proof (induction keys arbitrary: id_map n)
  case Nil
  then show ?case by simp
next
  case (Cons x xs)
  show ?case
  proof (cases "k = x")
    case True
    have "map_of (AList.update x n id_map) k \<noteq> None"
      using True by (simp add: update_conv')
    from map_ids_keeps [OF this, of xs "n + 1"] show ?thesis
      by (simp add: map_ids_def)
  next
    case False
    with Cons.prems have "k \<in> set xs" by simp
    from Cons.IH [OF this, of "AList.update x n id_map" "n + 1"] show ?thesis
      by (simp add: map_ids_def)
  qed
qed

lemma lookup_defined:
  "map_of id_map k \<noteq> None \<Longrightarrow> lookup id_map k shown = Inr (id_of id_map k)"
  by (auto simp: lookup_def id_of_def)

subsection \<open>Runs without \<open>Raise\<close>\<close>

lemma issued_Do [simp]: "issued (map Do cs) = cs"
  by (induction cs) simp_all

lemma concat_map_Do:
  assumes "\<And>x. x \<in> set xs \<Longrightarrow> f x = map Do (g x)"
  shows "concat (map f xs) = map Do (concat (map g xs))"
  using assms by (induction xs) simp_all

subsection \<open>The node commands\<close>

lemma movie_steps_Do:
  assumes "map_of mm (fst entry) \<noteq> None"
  shows "movie_steps mm entry
         = map Do [InsertN (id_of mm (fst entry)) ''Movie'',
                   InsertNP (id_of mm (fst entry)) ''title'' (escape_quotes (m_title (snd entry))),
                   InsertNP (id_of mm (fst entry)) ''movieId'' (py_str (fst entry))]"
  using assms by (cases entry) (simp add: movie_steps_def lookup_defined)

lemma user_steps_Do:
  assumes "map_of um u \<noteq> None"
  shows "user_steps um u
         = map Do [InsertN (id_of um u) ''User'', InsertNP (id_of um u) ''userId'' (py_str u)]"
  using assms by (simp add: user_steps_def lookup_defined)

lemma genre_steps_Do:
  assumes "map_of gm g \<noteq> None"
  shows "genre_steps gm g
         = map Do [InsertN (id_of gm g) ''Genre'', InsertNP (id_of gm g) ''name'' g]"
  using assms by (simp add: genre_steps_def lookup_defined)

subsection \<open>The edge commands\<close>

lemma rated_steps_ok:
  assumes "edge_loop_ok ns st"
    and "map_of um (rr_userId r) \<noteq> None" and "map_of mm (rr_movieId r) \<noteq> None"
    and "InsertN (id_of um (rr_userId r)) ''User'' \<in> set ns"
    and "InsertN (id_of mm (rr_movieId r)) ''Movie'' \<in> set ns"
  shows "edge_loop_ok ns (rated_steps um mm r st)"
proof -
  obtain e steps where st: "st = (e, steps)" by (cases st)
  from assms(1) st obtain cs where cs: "steps = map Do cs"
    and ok: "\<forall>c \<in> set cs. endpoints_inserted ns c"
    by (auto simp: edge_loop_ok_def)
  let ?new = "[InsertE e (id_of um (rr_userId r)) (id_of mm (rr_movieId r)) ''RATED'',
               InsertEP e ''rating'' (rr_rating r),
               InsertEP e ''timestamp'' (py_str (rr_timestamp r))]"
  have "rated_steps um mm r st = (e + 1, map Do (cs @ ?new))"
    using assms(2,3) by (simp add: st cs rated_steps_def lookup_defined)
  moreover have "\<forall>c \<in> set (cs @ ?new). endpoints_inserted ns c"
    using ok assms(4,5) by auto
  ultimately show ?thesis
    unfolding edge_loop_ok_def by (metis snd_conv)
qed

lemma genre_edge_steps_ok:
  assumes "edge_loop_ok ns st"
    and "map_of gm g \<noteq> None"
    and "InsertN m ''Movie'' \<in> set ns"
    and "InsertN (id_of gm g) ''Genre'' \<in> set ns"
  shows "edge_loop_ok ns (genre_edge_steps gm m g st)"
proof -
  obtain e steps where st: "st = (e, steps)" by (cases st)
  from assms(1) st obtain cs where cs: "steps = map Do cs"
    and ok: "\<forall>c \<in> set cs. endpoints_inserted ns c"
    by (auto simp: edge_loop_ok_def)
  let ?new = "[InsertE e m (id_of gm g) ''HAS_GENRE'']"
  have "genre_edge_steps gm m g st = (e + 1, map Do (cs @ ?new))"
    using assms(2) by (simp add: st cs genre_edge_steps_def lookup_defined)
  moreover have "\<forall>c \<in> set (cs @ ?new). endpoints_inserted ns c"
    using ok assms(3,4) by auto
  ultimately show ?thesis
    unfolding edge_loop_ok_def by (metis snd_conv)
qed

lemma fold_ok:
  assumes "P st" and "\<And>x st. x \<in> set xs \<Longrightarrow> P st \<Longrightarrow> P (f x st)"
  shows "P (fold f xs st)"
  using assms by (induction xs arbitrary: st) auto

lemma has_genre_steps_ok:
  assumes "edge_loop_ok ns st"
    and "map_of mm (fst entry) \<noteq> None"
    and "\<forall>g \<in> set (m_genres (snd entry)).
           map_of gm g \<noteq> None \<and> InsertN (id_of gm g) ''Genre'' \<in> set ns"
    and "InsertN (id_of mm (fst entry)) ''Movie'' \<in> set ns"
  shows "edge_loop_ok ns (has_genre_steps mm gm entry st)"
proof -
  obtain k d where entry: "entry = (k, d)" by (cases entry)
  have "has_genre_steps mm gm entry st
        = fold (genre_edge_steps gm (id_of mm k)) (m_genres d) st"
    using assms(2) by (simp add: entry has_genre_steps_def lookup_defined)
  moreover have "edge_loop_ok ns (fold (genre_edge_steps gm (id_of mm k)) (m_genres d) st)"
    using assms(1)
  proof (rule fold_ok)
    fix g st'
    assume "g \<in> set (m_genres d)" and "edge_loop_ok ns st'"
    then show "edge_loop_ok ns (genre_edge_steps gm (id_of mm k) g st')"
      using assms(3,4) by (intro genre_edge_steps_ok) (simp_all add: entry)
  qed
  ultimately show ?thesis by simp
qed

subsection \<open>The whole sequence\<close>

lemma insert_steps_shape:
  assumes enum: "\<And>xs. set (enum xs) = set xs"
  shows "\<exists>ns es. insert_steps enum movie_rows rating_rows = map Do (ns @ es)
           \<and> (\<forall>c \<in> set ns. \<not> is_InsertE c)
           \<and> (\<forall>c \<in> set es. endpoints_inserted ns c)"
proof -
  define movies where "movies = load_movies movie_rows 500"
  define ratings where "ratings = load_ratings rating_rows (set (map fst movies)) 5000"
  define users where "users = enum (map rr_userId ratings)"
  define genres where
    "genres = sort (remdups (concat (map (\<lambda>entry. m_genres (snd entry)) movies)))"
  obtain mm n1 where mm: "map_ids (map fst movies) ([], 1) = (mm, n1)"
    by (cases "map_ids (map fst movies) ([], 1)")
  obtain um n2 where um: "map_ids users ([], n1) = (um, n2)"
    by (cases "map_ids users ([], n1)")
  obtain gm n3 where gm: "map_ids genres ([], n2) = (gm, n3)"
    by (cases "map_ids genres ([], n2)")
  have mm_def: "\<And>k. k \<in> set (map fst movies) \<Longrightarrow> map_of mm k \<noteq> None"
    using map_ids_defined [of _ "map fst movies" "[]" 1] by (simp add: mm)
  have um_def: "\<And>u. u \<in> set users \<Longrightarrow> map_of um u \<noteq> None"
    using map_ids_defined [of _ users "[]" n1] by (simp add: um)
  have gm_def: "\<And>g. g \<in> set genres \<Longrightarrow> map_of gm g \<noteq> None"
    using map_ids_defined [of _ genres "[]" n2] by (simp add: gm)
  define mc where "mc = (\<lambda>entry :: int \<times> movie.
      [InsertN (id_of mm (fst entry)) ''Movie'',
       InsertNP (id_of mm (fst entry)) ''title'' (escape_quotes (m_title (snd entry))),
       InsertNP (id_of mm (fst entry)) ''movieId'' (py_str (fst entry))])"
  define uc where "uc = (\<lambda>u. [InsertN (id_of um u) ''User'', InsertNP (id_of um u) ''userId'' (py_str u)])"
  define gc where "gc = (\<lambda>g. [InsertN (id_of gm g) ''Genre'', InsertNP (id_of gm g) ''name'' g])"
  define ns where "ns = concat (map mc movies) @ concat (map uc users) @ concat (map gc genres)"
  have node_steps: "concat (map (movie_steps mm) movies) @ concat (map (user_steps um) users)
      @ concat (map (genre_steps gm) genres) = map Do ns"
  proof -
    have "concat (map (movie_steps mm) movies) = map Do (concat (map mc movies))"
      by (rule concat_map_Do) (simp add: mc_def movie_steps_Do mm_def)
    moreover have "concat (map (user_steps um) users) = map Do (concat (map uc users))"
      by (rule concat_map_Do) (simp add: uc_def user_steps_Do um_def)
    moreover have "concat (map (genre_steps gm) genres) = map Do (concat (map gc genres))"
      by (rule concat_map_Do) (simp add: gc_def genre_steps_Do gm_def)
    ultimately show ?thesis by (simp add: ns_def)
  qed
  have no_edges: "\<forall>c \<in> set ns. \<not> is_InsertE c"
    by (auto simp: ns_def mc_def uc_def gc_def)
  have movie_in: "\<And>entry. entry \<in> set movies \<Longrightarrow> InsertN (id_of mm (fst entry)) ''Movie'' \<in> set ns"
    by (force simp: ns_def mc_def)
  have user_in: "\<And>u. u \<in> set users \<Longrightarrow> InsertN (id_of um u) ''User'' \<in> set ns"
    by (force simp: ns_def uc_def)
  have genre_in: "\<And>g. g \<in> set genres \<Longrightarrow> InsertN (id_of gm g) ''Genre'' \<in> set ns"
    by (force simp: ns_def gc_def)
  have rating_user: "\<And>r. r \<in> set ratings \<Longrightarrow> rr_userId r \<in> set users"
    by (simp add: users_def enum)
  have rating_movie: "\<And>r. r \<in> set ratings \<Longrightarrow> rr_movieId r \<in> set (map fst movies)"
    by (simp add: ratings_def load_ratings_def)
  have key_in: "\<And>k. k \<in> set (map fst movies) \<Longrightarrow> InsertN (id_of mm k) ''Movie'' \<in> set ns"
    using movie_in by auto
  have movie_genre: "\<And>entry g. entry \<in> set movies \<Longrightarrow> g \<in> set (m_genres (snd entry))
      \<Longrightarrow> g \<in> set genres"
    by (auto simp: genres_def)
  obtain e1 rated where rated: "fold (rated_steps um mm) ratings (1, []) = (e1, rated)"
    by (cases "fold (rated_steps um mm) ratings (1, [])")
  have "edge_loop_ok ns (fold (rated_steps um mm) ratings (1, []))"
  proof (rule fold_ok)
    show "edge_loop_ok ns (1, [])"
      by (simp add: edge_loop_ok_def)
  next
    fix r st
    assume r: "r \<in> set ratings" and st: "edge_loop_ok ns st"
    have "map_of mm (rr_movieId r) \<noteq> None"
      using rating_movie [OF r] by (rule mm_def)
    moreover have "InsertN (id_of mm (rr_movieId r)) ''Movie'' \<in> set ns"
      using rating_movie [OF r] by (rule key_in)
    ultimately show "edge_loop_ok ns (rated_steps um mm r st)"
      using st rating_user [OF r] by (intro rated_steps_ok) (simp_all add: um_def user_in)
  qed
  with rated obtain rc where rc: "rated = map Do rc"
    and rc_ok: "\<forall>c \<in> set rc. endpoints_inserted ns c"
    by (auto simp: edge_loop_ok_def)
  obtain e2 has_genre where hg: "fold (has_genre_steps mm gm) movies (e1, []) = (e2, has_genre)"
    by (cases "fold (has_genre_steps mm gm) movies (e1, [])")
  have "edge_loop_ok ns (fold (has_genre_steps mm gm) movies (e1, []))"
  proof (rule fold_ok)
    show "edge_loop_ok ns (e1, [])"
      by (simp add: edge_loop_ok_def)
  next
    fix entry st
    assume entry: "entry \<in> set movies" and st: "edge_loop_ok ns st"
    show "edge_loop_ok ns (has_genre_steps mm gm entry st)"
      using st
    proof (rule has_genre_steps_ok)
      show "map_of mm (fst entry) \<noteq> None"
        using entry by (intro mm_def) simp
      show "\<forall>g \<in> set (m_genres (snd entry)).
              map_of gm g \<noteq> None \<and> InsertN (id_of gm g) ''Genre'' \<in> set ns"
        using movie_genre [OF entry] gm_def genre_in by blast
      show "InsertN (id_of mm (fst entry)) ''Movie'' \<in> set ns"
        using entry by (rule movie_in)
    qed
  qed
  with hg obtain hc where hc: "has_genre = map Do hc"
    and hc_ok: "\<forall>c \<in> set hc. endpoints_inserted ns c"
    by (auto simp: edge_loop_ok_def)
  let ?es = "rc @ hc @ [CreateView movie_genre_view, CreateView highly_rated_view]"
  have "insert_steps enum movie_rows rating_rows = map Do (ns @ ?es)"
    unfolding insert_steps_def Let_def
    unfolding movies_def [symmetric]
    unfolding ratings_def [symmetric] genres_def [symmetric]
    unfolding users_def [symmetric]
    unfolding mm um gm rated hg prod.case
    using node_steps by (simp add: rc hc)
  moreover have "\<forall>c \<in> set ?es. endpoints_inserted ns c"
    using rc_ok hc_ok by auto
  ultimately show ?thesis
    using no_edges by blast
qed

lemma issued_map_step: "issued (map (map_step f) steps) = map f (issued steps)"
  by (induction steps rule: issued.induct) simp_all

lemma load_movielens_data_issued:
  "issued (load_movielens_data enum True True True movie_rows rating_rows)
   = [(API_URL @ ''/connect'', JObj [(''platform'', JStr ''pg'')]),
      (API_URL @ ''/graph/create'', JObj [(''name'', JStr ''MovieLens'')]),
      (API_URL @ ''/graph/use'', JObj [(''name'', JStr ''MovieLens'')])]
     @ map schema_request_of movielens_schemas
     @ map execute_request (issued (insert_steps enum movie_rows rating_rows))"
  by (simp add: load_movielens_data_def movielens_schemas_def issued_map_step)

text \<open>The run on the two demo files, evaluated.\<close>

lemma demo_issued:
  "issued (insert_steps remdups demo_movies demo_ratings)
   = [InsertN 1 ''Movie'', InsertNP 1 ''title'' ''Heat (1995)'', InsertNP 1 ''movieId'' ''10'',
      InsertN 2 ''Movie'', InsertNP 2 ''title'' ''Nixon (1995)'', InsertNP 2 ''movieId'' ''20'',
      InsertN 3 ''User'', InsertNP 3 ''userId'' ''7'', InsertN 4 ''User'',
      InsertNP 4 ''userId'' ''8'', InsertN 5 ''Genre'', InsertNP 5 ''name'' ''Action'',
      InsertN 6 ''Genre'', InsertNP 6 ''name'' ''Crime'', InsertE 1 3 1 ''RATED'',
      InsertEP 1 ''rating'' ''4.0'', InsertEP 1 ''timestamp'' ''964'',
      InsertE 2 4 2 ''RATED'', InsertEP 2 ''rating'' ''5.0'', InsertEP 2 ''timestamp'' ''966'',
      InsertE 3 1 5 ''HAS_GENRE'', InsertE 4 1 6 ''HAS_GENRE'',
      CreateView movie_genre_view, CreateView highly_rated_view]"
  by code_simp

section \<open>Edges of the MovieLens graph refer to inserted nodes\<close>

text \<open>
  C6. Let \<open>cs\<close> be the commands that a run of \<^verbatim>\<open>load_movielens_data\<close> has issued (any prefix
  of the full sequence, for a run cut short by a failed request), for any two CSV files
  and any order in which Python iterates over the set of users. The script itself raises
  no \<^verbatim>\<open>KeyError\<close> in its lookups, and every \<^verbatim>\<open>insert E(id, from, to, label)\<close> in \<open>cs\<close> comes
  after \<^verbatim>\<open>insert N\<close> commands for both its endpoints: a \<^verbatim>\<open>RATED\<close> edge goes from an inserted
  \<^verbatim>\<open>User\<close> node to an inserted \<^verbatim>\<open>Movie\<close> node, a \<^verbatim>\<open>HAS_GENRE\<close> edge from an inserted \<^verbatim>\<open>Movie\<close>
  node to an inserted \<^verbatim>\<open>Genre\<close> node.
\<close>

theorem edges_reference_inserted_nodes:
  assumes enum: "\<forall>xs. set (enum xs) = set xs"
    and cs: "cs = take k (issued (insert_steps enum movie_rows rating_rows))"
    and i: "i < length cs"
    and edge: "cs ! i = InsertE e f t l"
  shows "list_all is_Do (insert_steps enum movie_rows rating_rows)
       \<and> (l = ''RATED'' \<and> InsertN f ''User'' \<in> set (take i cs)
             \<and> InsertN t ''Movie'' \<in> set (take i cs)
          \<or> l = ''HAS_GENRE'' \<and> InsertN f ''Movie'' \<in> set (take i cs)
             \<and> InsertN t ''Genre'' \<in> set (take i cs))"
proof -
  from enum have "\<And>xs. set (enum xs) = set xs"
    by simp
  from insert_steps_shape [of enum, OF this] obtain ns es where
    shape: "insert_steps enum movie_rows rating_rows = map Do (ns @ es)"
    and ns: "\<forall>c \<in> set ns. \<not> is_InsertE c"
    and es: "\<forall>c \<in> set es. endpoints_inserted ns c"
    by blast
  define whole where "whole = ns @ es"
  have full: "cs = take k whole"
    by (simp add: cs shape whole_def del: map_append)
  have all_Do: "list_all is_Do (insert_steps enum movie_rows rating_rows)"
    unfolding shape by (auto simp: list_all_iff)
  from i full have ik: "i < k" "i < length whole"
    by simp_all
  then have "whole ! i = InsertE e f t l"
    using edge full by simp
  then have at: "(ns @ es) ! i = InsertE e f t l"
    by (simp add: whole_def)
  have "\<not> i < length ns"
  proof
    assume "i < length ns"
    then have "(ns @ es) ! i \<in> set ns"
      by (simp add: nth_append)
    with ns at show False
      by auto
  qed
  then have ge: "length ns \<le> i"
    by simp
  then have "es ! (i - length ns) = InsertE e f t l"
    using at by (simp add: nth_append)
  moreover have "i - length ns < length es"
    using ik ge by (simp add: whole_def)
  ultimately have "InsertE e f t l \<in> set es"
    by (metis nth_mem)
  with es have ok: "endpoints_inserted ns (InsertE e f t l)"
    by blast
  have "take i cs = take i whole"
    using ik by (simp add: full min_def)
  then have "set ns \<subseteq> set (take i cs)"
    using ge by (simp add: whole_def)
  with ok all_Do show ?thesis
    by auto
qed

theorem edges_reference_inserted_nodes_witness:
  "(\<forall>xs :: int list. set (remdups xs) = set xs)
   \<and> 14 < length (take 16 (issued (insert_steps remdups demo_movies demo_ratings)))
   \<and> take 16 (issued (insert_steps remdups demo_movies demo_ratings)) ! 14
       = InsertE 1 3 1 ''RATED''
   \<and> list_all is_Do (insert_steps remdups demo_movies demo_ratings)
   \<and> InsertN 3 ''User''
       \<in> set (take 14 (take 16 (issued (insert_steps remdups demo_movies demo_ratings))))
   \<and> InsertN 1 ''Movie''
       \<in> set (take 14 (take 16 (issued (insert_steps remdups demo_movies demo_ratings))))"
proof -
  let ?cs = "take 16 (issued (insert_steps remdups demo_movies demo_ratings))"
  have enum: "\<forall>xs :: int list. set (remdups xs) = set xs"
    by simp
  have i: "14 < length ?cs"
    by (simp add: demo_issued)
  have edge: "?cs ! 14 = InsertE 1 3 1 ''RATED''"
    by (simp add: demo_issued)
  from edges_reference_inserted_nodes [OF enum refl i edge] enum i edge
  show ?thesis
    by simp
qed

section \<open>The loader of the dummy graph: quotes in property values\<close>

subsection \<open>What the replacement does\<close>







subsection \<open>The commands of one node and of one edge\<close>




subsection \<open>The run against a server that agrees\<close>




text \<open>Whatever the server answers, the requests posted are the first ones of the script.\<close>

lemma run_prefix: "\<exists>n. issued (run world k script) = take n (map fst (issued script))"
proof (induction world k script rule: run.induct)
  case (1 world k)
  show ?case
    by simp
next
  case (2 world k e rest)
  show ?case
    by simp
next
  case (3 world k req examine rest)
  show ?case
  proof (cases "world k")
    case (Inl e)
    then have "issued (run world k (Do (req, examine) # rest))
               = take 1 (map fst (issued (Do (req, examine) # rest)))"
      by simp
    then show ?thesis
      by blast
  next
    case (Inr body)
    show ?thesis
    proof (cases "examine body")
      case Continue
      from 3 [OF Inr Continue] obtain n
        where "issued (run world (Suc k) rest) = take n (map fst (issued rest))"
        by blast
      with Inr Continue
      have "issued (run world k (Do (req, examine) # rest))
            = take (Suc n) (map fst (issued (Do (req, examine) # rest)))"
        by simp
      then show ?thesis
        by blast
    next
      case Return
      with Inr have "issued (run world k (Do (req, examine) # rest))
                     = take 1 (map fst (issued (Do (req, examine) # rest)))"
        by simp
      then show ?thesis
        by blast
    next
      case (Raises e)
      with Inr have "issued (run world k (Do (req, examine) # rest))
                     = take 1 (map fst (issued (Do (req, examine) # rest)))"
        by simp
      then show ?thesis
        by blast
    qed
  qed
qed

subsection \<open>Where the run stops\<close>

lemma created_message_not_string:
  "created (Inr (JObj [(''success'', JBool False), (''message'', JInt 3)])) = Raises AttributeError"
  by (simp add: created_def get_success_def)

lemma created_already_exists:
  "created (Inr (JObj [(''success'', JBool False), (''error'', JStr ''already exists'')])) = Continue"
  by (simp add: created_def get_success_def)

lemma connect_refused:
  assumes "world 0 = Inr (Inr (JObj [(''success'', JBool False)]))"
  shows "load_dummy_data other True (Some (Inr data)) world
         = [Do (API_URL @ ''/connect'', JObj [(''platform'', JStr ''pg'')])]"
  using assms by (simp add: load_dummy_data_def dummy_script_def must_succeed_def get_success_def)

lemma summary_missing: "py_item data ''summary'' = Inl e \<Longrightarrow> summary_steps data = [Raise e]"
  by (simp add: summary_steps_def)

subsection \<open>The run on a well-formed data file\<close>





end
